theory Spec2Isabelle
  imports Main "HOL-Library.Word"
begin

unbundle bit_operations_syntax

section \<open>The FocusMotion streaming engine of \<open>focusmotion.c\<close>\<close>

text \<open>
  The C file keeps its whole state in file-level globals and is driven by callbacks of
  the Pebble runtime, one at a time.  The model is a record holding the globals (under
  their source names) together with the part of the platform the code talks to, and one
  state-passing function per C function.

  Conventions of the model:
  \<^item> \<open>g_accel_buf\<close> with \<open>g_accel_buf_count\<close>, and \<open>g_resend_buf\<close> with
    \<open>g_resend_buf_count\<close>, are lists: the list is the filled prefix of the array and
    its length is the count.
  \<^item> The fields \<open>g_samples_sent\<close> and \<open>g_samples_measured\<close> hold the exact numbers of
    samples sent and measured since the recording started.  The code only ever adds to
    its two 32-bit \<open>int\<close> counters, resets them and writes them into messages, and never
    compares them, so the C variables hold these numbers modulo \<open>2^32\<close>, read as signed:
    \<open>c_int\<close> of the field.  Where the code writes a counter into a message the model
    truncates it to 32 bits; a statement about the order of the C variables is made
    through \<open>c_int\<close>.
  \<^item> A client handler is a flag (is the pointer non-NULL) and calling it appends the
    call to \<open>client_calls\<close>; client handlers are taken not to call back into the
    library.
  \<^item> A message is the list of its tuples, each with its key, type and value bytes
    (little endian, as on the ARM target).  A \<open>dict_write_*\<close> call appends a tuple;
    like the C code, the model does not look at the \<open>DictionaryResult\<close>.
  \<^item> The outbox is scripted: \<open>outbox_begin_results\<close> and \<open>outbox_send_results\<close> hold
    the results the next calls of \<open>app_message_outbox_begin\<close> and
    \<open>app_message_outbox_send\<close> will return (busy once the script is used up).  With a
    successful begin comes the value that \<open>iter->end - iter->cursor\<close> has when the
    sensor payload is sized.  Every message handed to \<open>app_message_outbox_send\<close> is
    recorded in \<open>outbox_log\<close> with the result of the call.
  \<^item> The samples handed to \<open>accel_handler\<close> are a list and \<open>inCount\<close> is its length.
  \<^item> \<open>malloc\<close> is taken to succeed.
\<close>

subsection \<open>Platform types\<close>

datatype AppMessageResult =
    APP_MSG_OK
  | APP_MSG_SEND_TIMEOUT
  | APP_MSG_SEND_REJECTED
  | APP_MSG_NOT_CONNECTED
  | APP_MSG_APP_NOT_RUNNING
  | APP_MSG_INVALID_ARGS
  | APP_MSG_BUSY
  | APP_MSG_BUFFER_OVERFLOW
  | APP_MSG_ALREADY_RELEASED
  | APP_MSG_CALLBACK_ALREADY_REGISTERED
  | APP_MSG_CALLBACK_NOT_REGISTERED
  | APP_MSG_OUT_OF_MEMORY
  | APP_MSG_CLOSED
  | APP_MSG_INTERNAL_ERROR

datatype AccelSamplingRate =
    ACCEL_SAMPLING_10HZ
  | ACCEL_SAMPLING_25HZ
  | ACCEL_SAMPLING_50HZ
  | ACCEL_SAMPLING_100HZ

text \<open>The numeric value of the enum, as the Pebble SDK declares it.\<close>

fun sampling_rate_value :: "AccelSamplingRate \<Rightarrow> 8 word" where
  "sampling_rate_value ACCEL_SAMPLING_10HZ = 10"
| "sampling_rate_value ACCEL_SAMPLING_25HZ = 25"
| "sampling_rate_value ACCEL_SAMPLING_50HZ = 50"
| "sampling_rate_value ACCEL_SAMPLING_100HZ = 100"

definition DEFAULT_SAMPLING_RATE :: AccelSamplingRate where
  "DEFAULT_SAMPLING_RATE = ACCEL_SAMPLING_50HZ"

datatype AccelData =
  AccelData (accel_x: "16 word") (accel_y: "16 word") (accel_z: "16 word")
            (did_vibrate: bool) (timestamp: "64 word")

datatype Sample = Sample (sample_x: "16 word") (sample_y: "16 word") (sample_z: "16 word")

datatype TupleType =
    TUPLE_BYTE_ARRAY
  | TUPLE_CSTRING
  | TUPLE_UINT
  | TUPLE_INT
  | TUPLE_OTHER "8 word"

datatype Tuple =
  Tuple (tuple_key: "32 word") (tuple_type: TupleType) (tuple_value: "8 word list")

type_synonym message = "Tuple list"

datatype client_call =
    InboxReceivedCall message
  | OutboxFailedCall message AppMessageResult
  | AccelCall "AccelData list"
  | BluetoothCall bool
  | RecordingCall bool
  | ConnectedCall bool

subsection \<open>Constants\<close>

definition ACCEL_BUF_SIZE :: int where "ACCEL_BUF_SIZE = 500"
definition RESEND_BUF_SIZE :: nat where "RESEND_BUF_SIZE = 10"
definition PROTOCOL_VERSION :: "32 word" where "PROTOCOL_VERSION = 3"

definition KEYS_BEGIN :: "32 word" where "KEYS_BEGIN = 0x464d0000 - 1"
definition KEY_START :: "32 word" where "KEY_START = 0x464d0000"
definition KEY_STOP :: "32 word" where "KEY_STOP = 0x464d0001"
definition KEY_SENSOR_DATA :: "32 word" where "KEY_SENSOR_DATA = 0x464d0002"
definition KEY_METADATA :: "32 word" where "KEY_METADATA = 0x464d0003"
definition KEY_SENSOR_OFFSET :: "32 word" where "KEY_SENSOR_OFFSET = 0x464d0004"
definition KEY_CONNECT :: "32 word" where "KEY_CONNECT = 0x464d0005"
definition KEY_DISCONNECT :: "32 word" where "KEY_DISCONNECT = 0x464d0006"
definition KEY_RESEND :: "32 word" where "KEY_RESEND = 0x464d0007"
definition KEY_SENSOR_RATE :: "32 word" where "KEY_SENSOR_RATE = 0x464d0008"
definition KEY_HEARTBEAT :: "32 word" where "KEY_HEARTBEAT = 0x464d0009"
definition KEYS_END :: "32 word" where "KEYS_END = 0x464d000a"

subsection \<open>The globals and the platform\<close>

record fm_state =
  g_inited :: bool
  g_recording :: bool
  g_connected :: bool
  g_connection_id :: "32 word"
  g_inbox_received_handler :: bool
  g_outbox_failed_handler :: bool
  g_accel_handler :: bool
  g_bluetooth_handler :: bool
  g_recording_handler :: bool
  g_connected_handler :: bool
  g_accel_buf :: "Sample list"
  g_resend_buf :: "message list"
  g_samples_sent :: int
  g_samples_measured :: int
  g_msg_flags :: "32 word"
  g_metadata_buf :: "8 word list"
  g_sampling_rate :: AccelSamplingRate
  g_next_sampling_rate :: AccelSamplingRate
  g_data_timer :: bool
  g_last_message_time :: int
  g_app_version :: "16 word"
  accel_subscribed :: bool
  sniff_interval_reduced :: bool
  outbox_begin_results :: "(AppMessageResult \<times> int) list"
  outbox_send_results :: "AppMessageResult list"
  outbox_log :: "(message \<times> AppMessageResult) list"
  client_calls :: "client_call list"

text \<open>The static initialisers of the globals, with a script for the outbox.\<close>

definition initial_state ::
  "(AppMessageResult \<times> int) list \<Rightarrow> AppMessageResult list \<Rightarrow> fm_state" where
  "initial_state bs ss =
     \<lparr> g_inited = False, g_recording = False, g_connected = False, g_connection_id = 1,
       g_inbox_received_handler = False, g_outbox_failed_handler = False,
       g_accel_handler = False, g_bluetooth_handler = False,
       g_recording_handler = False, g_connected_handler = False,
       g_accel_buf = [], g_resend_buf = [],
       g_samples_sent = 0, g_samples_measured = 0, g_msg_flags = 0,
       g_metadata_buf = [],
       g_sampling_rate = DEFAULT_SAMPLING_RATE, g_next_sampling_rate = DEFAULT_SAMPLING_RATE,
       g_data_timer = False, g_last_message_time = 0, g_app_version = 0,
       accel_subscribed = False, sniff_interval_reduced = False,
       outbox_begin_results = bs, outbox_send_results = ss,
       outbox_log = [], client_calls = [] \<rparr>"

definition call_client :: "client_call \<Rightarrow> fm_state \<Rightarrow> fm_state" where
  "call_client c s = s\<lparr>client_calls := client_calls s @ [c]\<rparr>"

definition app_message_outbox_begin ::
  "fm_state \<Rightarrow> (AppMessageResult \<times> int) \<times> fm_state" where
  "app_message_outbox_begin s =
     (case outbox_begin_results s of
        [] \<Rightarrow> ((APP_MSG_BUSY, 0), s)
      | r # rs \<Rightarrow> (r, s\<lparr>outbox_begin_results := rs\<rparr>))"

definition app_message_outbox_send :: "message \<Rightarrow> fm_state \<Rightarrow> AppMessageResult \<times> fm_state" where
  "app_message_outbox_send m s =
     (case outbox_send_results s of
        [] \<Rightarrow> (APP_MSG_BUSY, s\<lparr>outbox_log := outbox_log s @ [(m, APP_MSG_BUSY)]\<rparr>)
      | r # rs \<Rightarrow> (r, s\<lparr>outbox_send_results := rs, outbox_log := outbox_log s @ [(m, r)]\<rparr>))"

subsection \<open>Dictionary tuples\<close>

definition le_bytes16 :: "16 word \<Rightarrow> 8 word list" where
  "le_bytes16 w = [ucast w, ucast (drop_bit 8 w)]"

definition le_bytes32 :: "32 word \<Rightarrow> 8 word list" where
  "le_bytes32 w = [ucast w, ucast (drop_bit 8 w), ucast (drop_bit 16 w), ucast (drop_bit 24 w)]"

definition byte_at :: "8 word list \<Rightarrow> nat \<Rightarrow> 8 word" where
  "byte_at bs i = (if i < length bs then bs ! i else 0)"

text \<open>
  \<open>t->value[0].uint8\<close>, read from resend counters.  A tuple with an empty value has no
  such byte; the C code then reads the byte behind the tuple, the model reads 0.  The
  engine writes its resend counters with one byte.
\<close>

definition tuple_uint8 :: "Tuple \<Rightarrow> 8 word" where
  "tuple_uint8 t = byte_at (tuple_value t) 0"

text \<open>
  A tuple in a message buffer, as the packed \<open>Tuple\<close> struct of the Pebble SDK lays it
  out: the key (4 bytes), the type (1 byte, the value of the \<open>TupleType\<close> enum), the
  length of the value (2 bytes) and the value.
\<close>

fun tuple_type_byte :: "TupleType \<Rightarrow> 8 word" where
  "tuple_type_byte TUPLE_BYTE_ARRAY = 0"
| "tuple_type_byte TUPLE_CSTRING = 1"
| "tuple_type_byte TUPLE_UINT = 2"
| "tuple_type_byte TUPLE_INT = 3"
| "tuple_type_byte (TUPLE_OTHER b) = b"

definition tuple_bytes :: "Tuple \<Rightarrow> 8 word list" where
  "tuple_bytes t =
     le_bytes32 (tuple_key t) @ [tuple_type_byte (tuple_type t)]
     @ le_bytes16 (word_of_nat (length (tuple_value t))) @ tuple_value t"

text \<open>
  Memory that starts with the bytes \<open>bs\<close> and goes on with the memory \<open>beyond\<close>, as a
  function from offsets to bytes.
\<close>

definition mem_of :: "8 word list \<Rightarrow> (nat \<Rightarrow> 8 word) \<Rightarrow> nat \<Rightarrow> 8 word" where
  "mem_of bs beyond i = (if i < length bs then bs ! i else beyond (i - length bs))"

text \<open>
  \<open>t->value[0].uint32\<close>: the four bytes at the address of the value, whatever the length
  of the value is.  \<open>after\<close> is the memory behind the value: the tuples that follow in the
  message, then whatever the buffer holds behind the message.
\<close>

definition tuple_uint32 :: "Tuple \<Rightarrow> (nat \<Rightarrow> 8 word) \<Rightarrow> 32 word" where
  "tuple_uint32 t after =
     ucast (mem_of (tuple_value t) after 0)
     OR push_bit 8 (ucast (mem_of (tuple_value t) after 1))
     OR push_bit 16 (ucast (mem_of (tuple_value t) after 2))
     OR push_bit 24 (ucast (mem_of (tuple_value t) after 3))"

definition dict_write_data :: "32 word \<Rightarrow> 8 word list \<Rightarrow> Tuple" where
  "dict_write_data k bs = Tuple k TUPLE_BYTE_ARRAY bs"

definition dict_write_cstring :: "32 word \<Rightarrow> 8 word list \<Rightarrow> Tuple" where
  "dict_write_cstring k bs = Tuple k TUPLE_CSTRING (takeWhile (\<lambda>b. b \<noteq> 0) bs @ [0])"

definition dict_write_int :: "32 word \<Rightarrow> 8 word list \<Rightarrow> bool \<Rightarrow> Tuple" where
  "dict_write_int k bs is_signed = Tuple k (if is_signed then TUPLE_INT else TUPLE_UINT) bs"

definition dict_write_uint8 :: "32 word \<Rightarrow> 8 word \<Rightarrow> Tuple" where
  "dict_write_uint8 k v = Tuple k TUPLE_UINT [v]"

definition dict_write_uint32 :: "32 word \<Rightarrow> 32 word \<Rightarrow> Tuple" where
  "dict_write_uint32 k v = Tuple k TUPLE_UINT (le_bytes32 v)"

fun dict_find :: "message \<Rightarrow> 32 word \<Rightarrow> Tuple option" where
  "dict_find [] k = None"
| "dict_find (t # ts) k = (if tuple_key t = k then Some t else dict_find ts k)"

definition sample_bytes :: "Sample \<Rightarrow> 8 word list" where
  "sample_bytes p = le_bytes16 (sample_x p) @ le_bytes16 (sample_y p) @ le_bytes16 (sample_z p)"

subsection \<open>Message flags\<close>

definition flag_bit :: "32 word \<Rightarrow> 32 word" where
  "flag_bit k = push_bit (unat (k - KEY_START)) 1"

definition set_msg_flag :: "32 word \<Rightarrow> fm_state \<Rightarrow> fm_state" where
  "set_msg_flag k s = s\<lparr>g_msg_flags := g_msg_flags s OR flag_bit k\<rparr>"

definition clear_msg_flag :: "32 word \<Rightarrow> fm_state \<Rightarrow> fm_state" where
  "clear_msg_flag k s = s\<lparr>g_msg_flags := g_msg_flags s AND NOT (flag_bit k)\<rparr>"

definition get_msg_flag :: "32 word \<Rightarrow> fm_state \<Rightarrow> bool" where
  "get_msg_flag k s = (g_msg_flags s AND flag_bit k \<noteq> 0)"

definition clear_resend_buf :: "fm_state \<Rightarrow> fm_state" where
  "clear_resend_buf s = s\<lparr>g_resend_buf := []\<rparr>"

subsection \<open>The send cycle\<close>

text \<open>
  The first block of \<open>send_data\<close> rebuilds the newest queued message: every tuple with a
  key of this protocol is copied, except the old resend counter, which is read.
\<close>

definition resend_copy :: "Tuple \<Rightarrow> Tuple list" where
  "resend_copy t =
     (case tuple_type t of
        TUPLE_BYTE_ARRAY \<Rightarrow> [dict_write_data (tuple_key t) (tuple_value t)]
      | TUPLE_CSTRING \<Rightarrow> [dict_write_cstring (tuple_key t) (tuple_value t)]
      | TUPLE_UINT \<Rightarrow> [dict_write_int (tuple_key t) (tuple_value t) False]
      | TUPLE_INT \<Rightarrow> [dict_write_int (tuple_key t) (tuple_value t) True]
      | TUPLE_OTHER b \<Rightarrow> [])"

fun resend_loop :: "message \<Rightarrow> int \<Rightarrow> message \<Rightarrow> int \<times> message" where
  "resend_loop [] resend out = (resend, out)"
| "resend_loop (t # ts) resend out =
     (if KEYS_BEGIN < tuple_key t \<and> tuple_key t < KEYS_END then
        (if tuple_key t = KEY_RESEND then resend_loop ts (uint (tuple_uint8 t)) out
         else resend_loop ts resend (out @ resend_copy t))
      else resend_loop ts resend out)"

definition resend_message :: "message \<Rightarrow> message" where
  "resend_message msgbuf =
     (case resend_loop msgbuf (- 1) [] of
        (resend, out) \<Rightarrow> out @ [dict_write_uint8 KEY_RESEND (word_of_int (resend + 1))])"

text \<open>
  \<open>int samples_max = bytes_available / sizeof(Sample)\<close> after \<open>bytes_available -= 32\<close>:
  \<open>sizeof\<close> is unsigned, so the division is the unsigned one on 32 bits.
\<close>

definition samples_max :: "int \<Rightarrow> int" where
  "samples_max avail = sint ((word_of_int (avail - 32) :: 32 word) div 6)"

definition samples_to_send :: "fm_state \<Rightarrow> int \<Rightarrow> int" where
  "samples_to_send s avail =
     (if g_accel_buf s \<noteq> [] then
        (if int (length (g_accel_buf s)) > samples_max avail then samples_max avail
         else int (length (g_accel_buf s)))
      else 0)"

definition new_msg_flags :: "fm_state \<Rightarrow> int \<Rightarrow> 32 word" where
  "new_msg_flags s avail =
     (if samples_to_send s avail = int (length (g_accel_buf s)) then 0
      else g_msg_flags s AND (flag_bit KEY_STOP OR flag_bit KEY_DISCONNECT))"

text \<open>The tuples the second block of \<open>send_data\<close> writes, in the order of the code.\<close>

definition fresh_message :: "fm_state \<Rightarrow> int \<Rightarrow> message" where
  "fresh_message s avail =
     (if get_msg_flag KEY_CONNECT s then
        dict_write_uint32 KEY_CONNECT
          (if g_connected s then push_bit 16 (g_connection_id s)
           else push_bit 16 (ucast (g_app_version s)) OR PROTOCOL_VERSION)
        # (if g_connected s then [dict_write_data KEY_METADATA (g_metadata_buf s)] else [])
      else [])
     @ (if get_msg_flag KEY_START s then [dict_write_uint8 KEY_START 1] else [])
     @ (if get_msg_flag KEY_HEARTBEAT s then [dict_write_uint8 KEY_HEARTBEAT 1] else [])
     @ (if g_accel_buf s \<noteq> [] then
          [dict_write_uint32 KEY_SENSOR_OFFSET (word_of_int (g_samples_sent s)),
           dict_write_uint8 KEY_SENSOR_RATE (sampling_rate_value (g_sampling_rate s)),
           dict_write_data KEY_SENSOR_DATA
             (concat (map sample_bytes (take (nat (samples_to_send s avail)) (g_accel_buf s))))]
        else [])
     @ (if samples_to_send s avail = int (length (g_accel_buf s)) then
          (if get_msg_flag KEY_STOP s then
             [dict_write_data KEY_STOP
                (le_bytes32 (word_of_int (g_samples_sent s + samples_to_send s avail))
                 @ le_bytes32 (word_of_int (g_samples_measured s)))]
           else [])
          @ (if get_msg_flag KEY_DISCONNECT s then
               [dict_write_uint8 KEY_DISCONNECT (ucast (g_connection_id s))]
             else [])
        else [])"

definition send_data_fresh :: "fm_state \<Rightarrow> fm_state" where
  "send_data_fresh s =
     (if g_accel_buf s \<noteq> [] \<or> g_msg_flags s \<noteq> 0 then
        (case app_message_outbox_begin s of
           ((r, avail), s1) \<Rightarrow>
             if r \<noteq> APP_MSG_OK then s1
             else
               (case app_message_outbox_send (fresh_message s1 avail) s1 of
                  (r2, s2) \<Rightarrow>
                    if r2 = APP_MSG_OK then
                      (let s3 = s2\<lparr>g_msg_flags := new_msg_flags s1 avail\<rparr>
                       in if samples_to_send s1 avail > 0 then
                            s3\<lparr>g_accel_buf := drop (nat (samples_to_send s1 avail)) (g_accel_buf s3),
                               g_samples_sent := g_samples_sent s3 + samples_to_send s1 avail\<rparr>
                          else s3)
                    else s2))
      else s)"

text \<open>
  The first block of \<open>send_data\<close>, entered when the resend queue is not empty.  The
  flag returned says whether the block ended in \<open>return\<close>.
\<close>

definition send_data_resend :: "fm_state \<Rightarrow> bool \<times> fm_state" where
  "send_data_resend s =
     (case app_message_outbox_begin s of
        ((r, avail), s1) \<Rightarrow>
          if r \<noteq> APP_MSG_OK then (True, s1)
          else
            (case app_message_outbox_send (resend_message (last (g_resend_buf s1))) s1 of
               (r2, s2) \<Rightarrow>
                 (False,
                  if r2 = APP_MSG_OK then s2\<lparr>g_resend_buf := butlast (g_resend_buf s2)\<rparr>
                  else s2)))"

definition send_data :: "fm_state \<Rightarrow> fm_state" where
  "send_data s =
     (if g_resend_buf s \<noteq> [] then
        (case send_data_resend s of
           (returned, s1) \<Rightarrow> if returned then s1 else send_data_fresh s1)
      else send_data_fresh s)"

subsection \<open>Data timer, recording and connection state\<close>

definition register_data_timer :: "fm_state \<Rightarrow> fm_state" where
  "register_data_timer s = (if \<not> g_data_timer s then s\<lparr>g_data_timer := True\<rparr> else s)"

definition cancel_data_timer :: "fm_state \<Rightarrow> fm_state" where
  "cancel_data_timer s = s\<lparr>g_data_timer := False\<rparr>"

definition start_recording :: "fm_state \<Rightarrow> fm_state" where
  "start_recording s =
     (if \<not> g_recording s then
        (let s1 = s\<lparr>g_sampling_rate := g_next_sampling_rate s, accel_subscribed := True,
                    sniff_interval_reduced := True,
                    g_accel_buf := [], g_samples_sent := 0, g_samples_measured := 0\<rparr>;
             s2 = send_data (clear_msg_flag KEY_STOP (set_msg_flag KEY_START s1));
             s3 = s2\<lparr>g_recording := True\<rparr>
         in if g_recording_handler s3 then call_client (RecordingCall True) s3 else s3)
      else s)"

definition stop_recording :: "fm_state \<Rightarrow> fm_state" where
  "stop_recording s =
     (if g_recording s then
        (let s1 = send_data (clear_msg_flag KEY_START (set_msg_flag KEY_STOP s));
             s2 = s1\<lparr>accel_subscribed := False, sniff_interval_reduced := False,
                     g_recording := False\<rparr>
         in if g_recording_handler s2 then call_client (RecordingCall False) s2 else s2)
      else s)"

definition set_connected :: "bool \<Rightarrow> fm_state \<Rightarrow> fm_state" where
  "set_connected connected s =
     (if g_connected s \<noteq> connected then
        (let s1 = (if connected then
                     (let s' = s\<lparr>g_connection_id := g_connection_id s + 1\<rparr>
                      in if g_connection_id s' > 1000 then s'\<lparr>g_connection_id := 1\<rparr> else s')
                   else
                     set_msg_flag KEY_DISCONNECT
                       ((clear_resend_buf (stop_recording s))
                          \<lparr>g_accel_buf := [], g_msg_flags := 0, g_last_message_time := 0\<rparr>));
             s2 = s1\<lparr>g_connected := connected\<rparr>
         in if g_connected_handler s2 then call_client (ConnectedCall connected) s2 else s2)
      else s)"

text \<open>The timer callback; \<open>now\<close> is the value of \<open>time(NULL)\<close>.\<close>

definition data_timer_callback :: "int \<Rightarrow> fm_state \<Rightarrow> fm_state" where
  "data_timer_callback now s =
     (let s1 = send_data (s\<lparr>g_data_timer := False\<rparr>);
          s2 = (if g_last_message_time s1 > 0 then
                  (if g_connected s1 \<and> now - g_last_message_time s1 > 8
                   then set_connected False s1 else s1)
                else s1)
      in register_data_timer s2)"

subsection \<open>Handlers of the platform's events\<close>

definition outbox_failed_handler :: "message \<Rightarrow> AppMessageResult \<Rightarrow> fm_state \<Rightarrow> fm_state" where
  "outbox_failed_handler in_iter reason s =
     (if reason = APP_MSG_SEND_REJECTED then s
      else
        (let s1 = (if g_connected s then
                     (case dict_find in_iter KEY_RESEND of
                        Some t \<Rightarrow>
                          if tuple_uint8 t > 5 then set_connected False s
                          else if length (g_resend_buf s) < RESEND_BUF_SIZE
                          then s\<lparr>g_resend_buf := g_resend_buf s @ [in_iter]\<rparr>
                          else set_connected False s
                      | None \<Rightarrow>
                          if length (g_resend_buf s) < RESEND_BUF_SIZE
                          then s\<lparr>g_resend_buf := g_resend_buf s @ [in_iter]\<rparr>
                          else set_connected False s)
                   else s)
         in if g_outbox_failed_handler s1
            then call_client (OutboxFailedCall in_iter reason) s1 else s1))"

text \<open>
  The two halves of the value of a connect tuple:
  \<open>uint16_t protocol_version = (version & 0xffff)\<close> and
  \<open>uint16_t app_version = ((version >> 16) & 0xffff)\<close>.
\<close>

definition decode_protocol_version :: "32 word \<Rightarrow> 16 word" where
  "decode_protocol_version version = ucast (version AND 0xffff)"

definition decode_app_version :: "32 word \<Rightarrow> 16 word" where
  "decode_app_version version = ucast (drop_bit 16 version AND 0xffff)"

text \<open>
  The body of the \<open>switch\<close> in \<open>inbox_received_handler\<close>, for one tuple; \<open>after\<close> is the
  memory behind the value of the tuple.
\<close>

definition inbox_tuple ::
  "Tuple \<Rightarrow> (nat \<Rightarrow> 8 word) \<Rightarrow> bool \<times> fm_state \<Rightarrow> bool \<times> fm_state" where
  "inbox_tuple t after hs =
     (case hs of (handled, s) \<Rightarrow>
        if tuple_key t = KEY_START then (True, start_recording s)
        else if tuple_key t = KEY_STOP then (True, stop_recording s)
        else if tuple_key t = KEY_DISCONNECT then (True, set_connected False s)
        else if tuple_key t = KEY_CONNECT then
          (let version = tuple_uint32 t after
           in if version > 0 then
                (let protocol_version = decode_protocol_version version;
                     app_version = decode_app_version version
                 in if protocol_version \<noteq> ucast PROTOCOL_VERSION \<or> app_version \<noteq> g_app_version s
                    then (True, set_msg_flag KEY_CONNECT (set_connected False s))
                    else (True, set_msg_flag KEY_CONNECT (set_connected True s)))
              else (True, set_connected True s))
        else (handled, s))"

text \<open>
  The loop over the tuples of the received message; \<open>beyond\<close> is the memory behind the
  message.  Behind the value of a tuple lie the tuples that follow it.
\<close>

fun inbox_loop ::
  "message \<Rightarrow> (nat \<Rightarrow> 8 word) \<Rightarrow> bool \<times> fm_state \<Rightarrow> bool \<times> fm_state" where
  "inbox_loop [] beyond hs = hs"
| "inbox_loop (t # ts) beyond hs =
     inbox_loop ts beyond (inbox_tuple t (mem_of (concat (map tuple_bytes ts)) beyond) hs)"

definition inbox_received_handler ::
  "message \<Rightarrow> (nat \<Rightarrow> 8 word) \<Rightarrow> int \<Rightarrow> fm_state \<Rightarrow> fm_state" where
  "inbox_received_handler iter beyond now s =
     (case inbox_loop iter beyond (False, s\<lparr>g_last_message_time := now\<rparr>) of
        (handled, s1) \<Rightarrow>
          if \<not> handled \<and> g_inbox_received_handler s1
          then call_client (InboxReceivedCall iter) s1 else s1)"

definition to_sample :: "AccelData \<Rightarrow> Sample" where
  "to_sample d = Sample (accel_x d) (accel_y d) (accel_z d)"

definition accel_handler :: "AccelData list \<Rightarrow> fm_state \<Rightarrow> fm_state" where
  "accel_handler inData s =
     (let inCount = int (length inData);
          s1 = (if g_recording s then
                  (let s' = s\<lparr>g_samples_measured := g_samples_measured s + inCount\<rparr>;
                       nBuf = ACCEL_BUF_SIZE - int (length (g_accel_buf s'));
                       n = (if inCount > nBuf then nBuf else inCount)
                   in if n > 0
                      then s'\<lparr>g_accel_buf := g_accel_buf s' @ map to_sample (take (nat n) inData)\<rparr>
                      else s')
                else s)
      in if g_accel_handler s1 then call_client (AccelCall inData) s1 else s1)"

definition bluetooth_handler :: "bool \<Rightarrow> fm_state \<Rightarrow> fm_state" where
  "bluetooth_handler connected s =
     (let s1 = (if \<not> connected then set_connected False s else s)
      in if g_bluetooth_handler s1 then call_client (BluetoothCall connected) s1 else s1)"

subsection \<open>The public interface\<close>

text \<open>
  The handler arguments of \<open>focusmotion_startup\<close> are given as flags (non-NULL), in the
  order of the C parameters; \<open>metadata\<close> is the string \<open>init_metadata\<close> builds from the
  watch model and the application's process information.
\<close>

definition focusmotion_startup ::
  "16 word \<Rightarrow> bool \<Rightarrow> bool \<Rightarrow> bool \<Rightarrow> bool \<Rightarrow> bool \<Rightarrow> bool \<Rightarrow> 8 word list
     \<Rightarrow> fm_state \<Rightarrow> fm_state" where
  "focusmotion_startup app_version client_inbox_received_handler client_outbox_failed_handler
       client_accel_handler client_bluetooth_handler client_connected_handler
       client_recording_handler metadata s =
     (if \<not> g_inited s then
        (register_data_timer
           (s\<lparr>g_app_version := app_version,
              g_inbox_received_handler := client_inbox_received_handler,
              g_outbox_failed_handler := client_outbox_failed_handler,
              g_accel_handler := client_accel_handler,
              g_bluetooth_handler := client_bluetooth_handler,
              g_recording_handler := client_recording_handler,
              g_connected_handler := client_connected_handler\<rparr>))
          \<lparr>g_metadata_buf := metadata,
           g_accel_buf := [], g_samples_sent := 0, g_samples_measured := 0,
           g_msg_flags := 0, g_connected := False, g_recording := False, g_inited := True\<rparr>
      else s)"

text \<open>\<open>bt\<close> is the result of \<open>bluetooth_connection_service_peek\<close>.\<close>

definition focusmotion_start_recording :: "bool \<Rightarrow> fm_state \<Rightarrow> fm_state" where
  "focusmotion_start_recording bt s = (if bt then start_recording s else s)"

definition focusmotion_stop_recording :: "fm_state \<Rightarrow> fm_state" where
  "focusmotion_stop_recording s = stop_recording s"

definition focusmotion_set_sampling_rate :: "AccelSamplingRate \<Rightarrow> fm_state \<Rightarrow> fm_state" where
  "focusmotion_set_sampling_rate rate s =
     (let s1 = s\<lparr>g_next_sampling_rate := rate\<rparr>
      in if \<not> g_recording s1 then s1\<lparr>g_sampling_rate := rate\<rparr> else s1)"

text \<open>
  The loop \<open>while (g_msg_flags && i < 5)\<close> of \<open>focusmotion_shutdown\<close>; the first argument
  is the number of rounds left.
\<close>

fun shutdown_loop :: "nat \<Rightarrow> fm_state \<Rightarrow> fm_state" where
  "shutdown_loop 0 s = s"
| "shutdown_loop (Suc n) s =
     (if g_msg_flags s \<noteq> 0 then shutdown_loop n (send_data s) else s)"

definition focusmotion_shutdown :: "fm_state \<Rightarrow> fm_state" where
  "focusmotion_shutdown s =
     (let s' = (if g_inited s then
                  (let s1 = s\<lparr>g_inbox_received_handler := False, g_accel_handler := False,
                              g_bluetooth_handler := False, g_recording_handler := False,
                              g_connected_handler := False\<rparr>;
                       s2 = send_data (stop_recording (set_msg_flag KEY_DISCONNECT s1));
                       s3 = shutdown_loop 5 s2
                   in clear_resend_buf (cancel_data_timer s3))
                else s)
      in s'\<lparr>g_inited := False\<rparr>)"

subsection \<open>Runs of the engine\<close>

datatype event =
    Startup "16 word" bool bool bool bool bool bool "8 word list"
  | TimerTick int
  | InboxReceived message "nat \<Rightarrow> 8 word" int
  | OutboxFailed message AppMessageResult
  | AccelSamples "AccelData list"
  | BluetoothChanged bool
  | StartRecording bool
  | StopRecording
  | SetSamplingRate AccelSamplingRate
  | Shutdown

fun step :: "event \<Rightarrow> fm_state \<Rightarrow> fm_state" where
  "step (Startup v h1 h2 h3 h4 h5 h6 md) s = focusmotion_startup v h1 h2 h3 h4 h5 h6 md s"
| "step (TimerTick now) s = data_timer_callback now s"
| "step (InboxReceived m beyond now) s = inbox_received_handler m beyond now s"
| "step (OutboxFailed m reason) s = outbox_failed_handler m reason s"
| "step (AccelSamples d) s = accel_handler d s"
| "step (BluetoothChanged c) s = bluetooth_handler c s"
| "step (StartRecording bt) s = focusmotion_start_recording bt s"
| "step (StopRecording) s = focusmotion_stop_recording s"
| "step (SetSamplingRate r) s = focusmotion_set_sampling_rate r s"
| "step Shutdown s = focusmotion_shutdown s"

fun run :: "event list \<Rightarrow> fm_state \<Rightarrow> fm_state" where
  "run [] s = s"
| "run (e # es) s = run es (step e s)"

inductive reachable :: "fm_state \<Rightarrow> bool" where
  reachable_initial: "reachable (initial_state bs ss)"
| reachable_step: "reachable s \<Longrightarrow> reachable (step e s)"

subsection \<open>Predicates on states\<close>

text \<open>
  Every sample that was sent or is buffered has been measured, and the buffer is within
  its capacity.
\<close>

definition accounted :: "fm_state \<Rightarrow> bool" where
  "accounted s \<longleftrightarrow>
     0 \<le> g_samples_sent s
     \<and> g_samples_sent s + int (length (g_accel_buf s)) \<le> g_samples_measured s
     \<and> length (g_accel_buf s) \<le> 500"

text \<open>
  What a 32-bit \<open>int\<close> variable of the C code holds when the number it counts is \<open>n\<close>.
\<close>

definition c_int :: "int \<Rightarrow> int" where
  "c_int n = sint (word_of_int n :: 32 word)"

text \<open>The heartbeat flag is not pending.\<close>

definition heartbeat_clear :: "fm_state \<Rightarrow> bool" where
  "heartbeat_clear s \<longleftrightarrow> \<not> get_msg_flag KEY_HEARTBEAT s"

text \<open>
  The message after \<open>k\<close> passes through the first block of \<open>send_data\<close>: what is on the
  air at the \<open>k\<close>-th resend of \<open>m\<close>.
\<close>

fun nth_resend :: "nat \<Rightarrow> message \<Rightarrow> message" where
  "nth_resend 0 m = m"
| "nth_resend (Suc k) m = resend_message (nth_resend k m)"

subsection \<open>Example states\<close>

text \<open>
  A connected session with five buffered samples, ten samples sent, fifteen measured and
  a pending stop, in front of an outbox that opens with \<open>avail\<close> bytes left and takes the
  message.
\<close>

definition stop_pending_example :: "int \<Rightarrow> fm_state" where
  "stop_pending_example avail =
     (initial_state [(APP_MSG_OK, avail)] [APP_MSG_OK])
       \<lparr>g_connected := True, g_accel_buf := replicate 5 (Sample 1 2 3),
        g_samples_sent := 10, g_samples_measured := 15,
        g_msg_flags := flag_bit KEY_STOP\<rparr>"

text \<open>A disconnected and a connected session of an application with version 7.\<close>

definition gate_state :: fm_state where
  "gate_state = (initial_state [] [])\<lparr>g_app_version := 7, g_connected := True\<rparr>"

text \<open>The states a run goes through, one per event.\<close>

fun trace :: "event list \<Rightarrow> fm_state \<Rightarrow> fm_state list" where
  "trace [] s = []"
| "trace (e # es) s = step e s # trace es (step e s)"

subsection \<open>Example runs\<close>

text \<open>
  Start-up, a bare connect from the phone and the start of a recording; then either three
  samples and the loss of the bluetooth link, or 700 samples and one timer tick.
\<close>

definition connect_and_record :: "event list" where
  "connect_and_record =
     [Startup 7 False False False False False False [],
      InboxReceived [dict_write_uint32 KEY_CONNECT 0] (\<lambda>i. 0) 100,
      StartRecording True]"

definition discard_run :: "event list" where
  "discard_run =
     connect_and_record
     @ [AccelSamples (replicate 3 (AccelData 1 2 3 False 0)), BluetoothChanged False]"

definition overflow_run :: "event list" where
  "overflow_run =
     connect_and_record
     @ [AccelSamples (replicate 700 (AccelData 1 2 3 False 0)), TimerTick 101]"

text \<open>
  A recording in front of an outbox that never opens, with \<open>n\<close> deliveries of 16 samples
  each; after \<open>2^27\<close> of them \<open>2^31\<close> samples have been measured.
\<close>

definition steady_deliveries :: "nat \<Rightarrow> event list" where
  "steady_deliveries n = replicate n (AccelSamples (replicate 16 (AccelData 1 2 3 False 0)))"

definition wrap_run :: "event list" where
  "wrap_run = connect_and_record @ steady_deliveries (2 ^ 27)"

text \<open>An outbox that takes two messages; the second has room for 11 samples.\<close>

definition overflow_outbox :: fm_state where
  "overflow_outbox =
     initial_state [(APP_MSG_OK, 3000), (APP_MSG_OK, 100)] [APP_MSG_OK, APP_MSG_OK]"

text \<open>
  A connected session that stays idle for eight timer ticks, one second apart, in front
  of an outbox that would take every message.
\<close>

definition idle_run :: "event list" where
  "idle_run =
     [Startup 7 False False False False False False [],
      InboxReceived [dict_write_uint32 KEY_CONNECT 0] (\<lambda>i. 0) 100,
      TimerTick 101, TimerTick 102, TimerTick 103, TimerTick 104,
      TimerTick 105, TimerTick 106, TimerTick 107, TimerTick 108]"

definition open_outbox :: fm_state where
  "open_outbox = initial_state (replicate 10 (APP_MSG_OK, 3000)) (replicate 10 APP_MSG_OK)"

text \<open>
  The start marker that the start of a recording sends, and runs in which its delivery
  fails again and again: each failure is followed by the timer tick that resends it.
\<close>

definition start_message :: message where
  "start_message = [dict_write_uint8 KEY_START 1]"

fun fail_and_retry :: "nat \<Rightarrow> message \<Rightarrow> event list" where
  "fail_and_retry 0 m = []"
| "fail_and_retry (Suc n) m =
     OutboxFailed m APP_MSG_SEND_TIMEOUT # TimerTick 101 # fail_and_retry n (resend_message m)"

definition six_failures_run :: "event list" where
  "six_failures_run =
     connect_and_record @ fail_and_retry 5 start_message
     @ [OutboxFailed (nth_resend 5 start_message) APP_MSG_SEND_TIMEOUT]"

definition seven_retries_run :: "event list" where
  "seven_retries_run = connect_and_record @ fail_and_retry 7 start_message"

text \<open>
  A run that ends with the start marker in the resend queue and two samples in the
  buffer.
\<close>

definition double_send_prefix :: "event list" where
  "double_send_prefix =
     connect_and_record
     @ [OutboxFailed start_message APP_MSG_SEND_TIMEOUT,
        AccelSamples [AccelData 1 2 3 False 0, AccelData 4 5 6 False 0]]"

lemmas key_defs =
  KEYS_BEGIN_def KEY_START_def KEY_STOP_def KEY_SENSOR_DATA_def KEY_METADATA_def
  KEY_SENSOR_OFFSET_def KEY_CONNECT_def KEY_DISCONNECT_def KEY_RESEND_def
  KEY_SENSOR_RATE_def KEY_HEARTBEAT_def KEYS_END_def

section \<open>Basic facts\<close>

lemma flag_bit_values:
  "flag_bit KEY_START = 1" "flag_bit KEY_STOP = 2" "flag_bit KEY_CONNECT = 32"
  "flag_bit KEY_DISCONNECT = 64" "flag_bit KEY_HEARTBEAT = 512"
  by (simp_all add: flag_bit_def key_defs)

lemmas small_defs =
  set_msg_flag_def clear_msg_flag_def call_client_def clear_resend_buf_def
  register_data_timer_def cancel_data_timer_def

lemmas outbox_defs = app_message_outbox_begin_def app_message_outbox_send_def

lemma stop_recording_not_recording: "\<not> g_recording (stop_recording s)"
  by (simp add: stop_recording_def Let_def call_client_def)

lemma set_connected_g_connected: "g_connected (set_connected c s) = c"
  by (simp add: set_connected_def Let_def call_client_def set_msg_flag_def)

lemma get_set_msg_flag_connect: "get_msg_flag KEY_CONNECT (set_msg_flag KEY_CONNECT s)"
  by (simp add: get_msg_flag_def set_msg_flag_def flag_bit_values word_ao_absorbs)

lemma flag_set_nonzero: "get_msg_flag k s \<Longrightarrow> g_msg_flags s \<noteq> 0"
  by (auto simp add: get_msg_flag_def)

lemma key_connect_distinct:
  "KEY_CONNECT \<noteq> KEY_START" "KEY_CONNECT \<noteq> KEY_STOP" "KEY_CONNECT \<noteq> KEY_DISCONNECT"
  by (simp_all add: key_defs)

subsection \<open>The sample budget of a message\<close>

lemma samples_max_uint:
  "samples_max avail = uint (word_of_int (avail - 32) :: 32 word) div 6"
proof -
  define w where "w = (word_of_int (avail - 32) :: 32 word)"
  have u: "uint (w div 6) = uint w div 6"
    by (simp add: uint_div)
  have "uint w < 2 ^ 32"
    using uint_bounded [of w] by simp
  then have b: "uint w div 6 < 2 ^ 31" by simp
  have "0 \<le> uint w" by simp
  then have n: "0 \<le> uint w div 6" by (simp add: pos_imp_zdiv_nonneg_iff)
  have "sint (w div 6) = signed_take_bit 31 (uint w div 6)"
    by (simp add: sint_uint u)
  also have "\<dots> = uint w div 6"
    using b n by (intro signed_take_bit_int_eq_self) simp_all
  finally show ?thesis by (simp add: samples_max_def w_def)
qed

lemma samples_max_nonneg: "0 \<le> samples_max avail"
  unfolding samples_max_uint by (simp add: pos_imp_zdiv_nonneg_iff)

text \<open>
  With at least the 32 bytes of margin left in the message, the budget is the number of
  whole 6-byte samples that fit in the rest.
\<close>

lemma samples_max_in_range:
  assumes "32 \<le> avail" "avail < 2 ^ 31"
  shows "samples_max avail = (avail - 32) div 6"
proof -
  have "take_bit 32 (avail - 32) = avail - 32"
    using assms by (intro take_bit_int_eq_self) simp_all
  then have "uint (word_of_int (avail - 32) :: 32 word) = avail - 32"
    by (simp only: uint_word_of_int_eq len_num1 len_bit0 mult_numeral_1_right
        numeral_times_numeral semiring_norm)
  then show ?thesis unfolding samples_max_uint by simp
qed

lemma samples_to_send_partial:
  assumes "samples_max avail < int (length (g_accel_buf s))"
  shows "samples_to_send s avail = samples_max avail"
    and "samples_to_send s avail \<noteq> int (length (g_accel_buf s))"
    and "g_accel_buf s \<noteq> []"
  using assms samples_max_nonneg [of avail] by (auto simp add: samples_to_send_def)

lemma samples_to_send_all:
  assumes "int (length (g_accel_buf s)) \<le> samples_max avail"
  shows "samples_to_send s avail = int (length (g_accel_buf s))"
  using assms by (auto simp add: samples_to_send_def)

lemma samples_to_send_bounds:
  "0 \<le> samples_to_send s avail" "samples_to_send s avail \<le> int (length (g_accel_buf s))"
  using samples_max_nonneg [of avail] by (auto simp add: samples_to_send_def)

subsection \<open>One fresh message\<close>

lemma fresh_message_begin_results [simp]:
  "fresh_message (s\<lparr>outbox_begin_results := bs\<rparr>) avail = fresh_message s avail"
  by (simp add: fresh_message_def get_msg_flag_def samples_to_send_def)

lemma samples_to_send_begin_results [simp]:
  "samples_to_send (s\<lparr>outbox_begin_results := bs\<rparr>) avail = samples_to_send s avail"
  by (simp add: samples_to_send_def)

lemma new_msg_flags_begin_results [simp]:
  "new_msg_flags (s\<lparr>outbox_begin_results := bs\<rparr>) avail = new_msg_flags s avail"
  by (simp add: new_msg_flags_def)

text \<open>
  The second block of \<open>send_data\<close> when there is something to send and the outbox
  opens: one message is handed to the outbox; if the outbox takes it, the flags, the
  buffer and the sent counter are updated, otherwise nothing of the engine changes.
\<close>

lemma send_data_fresh_attempt:
  assumes "outbox_begin_results s = (APP_MSG_OK, avail) # bs"
    and "outbox_send_results s = r # rs"
    and "g_accel_buf s \<noteq> [] \<or> g_msg_flags s \<noteq> 0"
  shows "send_data_fresh s =
     (if r = APP_MSG_OK then
        s\<lparr>outbox_begin_results := bs, outbox_send_results := rs,
          outbox_log := outbox_log s @ [(fresh_message s avail, r)],
          g_msg_flags := new_msg_flags s avail,
          g_accel_buf := drop (nat (samples_to_send s avail)) (g_accel_buf s),
          g_samples_sent := g_samples_sent s + samples_to_send s avail\<rparr>
      else
        s\<lparr>outbox_begin_results := bs, outbox_send_results := rs,
          outbox_log := outbox_log s @ [(fresh_message s avail, r)]\<rparr>)"
proof -
  have "0 \<le> samples_to_send s avail"
    by (rule samples_to_send_bounds)
  then have z: "\<not> 0 < samples_to_send s avail \<Longrightarrow> samples_to_send s avail = 0"
    by simp
  show ?thesis
    using assms z
    by (auto simp add: send_data_fresh_def app_message_outbox_begin_def
      app_message_outbox_send_def Let_def)
qed

lemma fresh_message_partial_keys:
  assumes "samples_max avail < int (length (g_accel_buf s))"
  shows "KEY_STOP \<notin> tuple_key ` set (fresh_message s avail)"
    and "KEY_DISCONNECT \<notin> tuple_key ` set (fresh_message s avail)"
  using samples_to_send_partial(2,3) [OF assms]
  by (auto simp add: fresh_message_def dict_write_uint32_def dict_write_uint8_def
      dict_write_data_def key_defs)

lemma new_msg_flags_partial:
  assumes "samples_max avail < int (length (g_accel_buf s))"
  shows "new_msg_flags s avail AND flag_bit KEY_STOP = g_msg_flags s AND flag_bit KEY_STOP"
    and "new_msg_flags s avail AND flag_bit KEY_DISCONNECT
          = g_msg_flags s AND flag_bit KEY_DISCONNECT"
  using samples_to_send_partial(2) [OF assms]
  by (simp_all add: new_msg_flags_def flag_bit_values and.assoc)

lemma fresh_message_stop:
  assumes "int (length (g_accel_buf s)) \<le> samples_max avail" and "get_msg_flag KEY_STOP s"
  shows "dict_write_data KEY_STOP
            (le_bytes32 (word_of_int (g_samples_sent s + int (length (g_accel_buf s))))
             @ le_bytes32 (word_of_int (g_samples_measured s)))
          \<in> set (fresh_message s avail)"
  using assms(2) samples_to_send_all [OF assms(1)]
  by (simp add: fresh_message_def)

subsection \<open>Fields the handlers leave alone\<close>

lemma send_data_fresh_app_version [simp]: "g_app_version (send_data_fresh s) = g_app_version s"
  by (simp add: send_data_fresh_def app_message_outbox_begin_def app_message_outbox_send_def
      Let_def split: list.splits prod.splits)

lemma send_data_resend_app_version [simp]:
  "g_app_version (snd (send_data_resend s)) = g_app_version s"
  by (simp add: send_data_resend_def app_message_outbox_begin_def app_message_outbox_send_def
      split: list.splits prod.splits)

lemma send_data_alt:
  "send_data s =
     (if g_resend_buf s \<noteq> [] then
        (if fst (send_data_resend s) then snd (send_data_resend s)
         else send_data_fresh (snd (send_data_resend s)))
      else send_data_fresh s)"
  by (simp add: send_data_def split: prod.splits)

lemma send_data_app_version [simp]: "g_app_version (send_data s) = g_app_version s"
  by (simp add: send_data_alt)

lemma start_recording_app_version [simp]: "g_app_version (start_recording s) = g_app_version s"
  by (simp add: start_recording_def Let_def call_client_def set_msg_flag_def clear_msg_flag_def)

lemma stop_recording_app_version [simp]: "g_app_version (stop_recording s) = g_app_version s"
  by (simp add: stop_recording_def Let_def call_client_def set_msg_flag_def clear_msg_flag_def)

lemma set_connected_app_version [simp]: "g_app_version (set_connected c s) = g_app_version s"
  by (simp add: set_connected_def Let_def call_client_def set_msg_flag_def clear_resend_buf_def)

lemma inbox_tuple_app_version [simp]:
  "g_app_version (snd (inbox_tuple t after hs)) = g_app_version (snd hs)"
  by (cases hs) (simp add: inbox_tuple_def Let_def set_msg_flag_def)

lemma inbox_loop_app_version [simp]:
  "g_app_version (snd (inbox_loop ts beyond hs)) = g_app_version (snd hs)"
  by (induction ts arbitrary: hs) simp_all

lemma mem_of_append: "mem_of (xs @ ys) beyond = mem_of xs (mem_of ys beyond)"
  by (rule ext) (auto simp add: mem_of_def nth_append)

text \<open>Behind the tuples of a prefix of the message lies the rest of the message.\<close>

lemma inbox_loop_append:
  "inbox_loop (ts @ us) beyond hs
     = inbox_loop us beyond (inbox_loop ts (mem_of (concat (map tuple_bytes us)) beyond) hs)"
  by (induction ts arbitrary: hs) (simp_all add: mem_of_append)

lemma set_msg_flag_g_connected [simp]: "g_connected (set_msg_flag k s) = g_connected s"
  by (simp add: set_msg_flag_def)

text \<open>Reading back the four bytes of a 32-bit value, and the two halves of a connect value.\<close>

lemma le_bytes32_read:
  fixes v :: "32 word"
  shows "ucast (ucast v :: 8 word)
     OR push_bit 8 (ucast (ucast (drop_bit 8 v) :: 8 word))
     OR push_bit 16 (ucast (ucast (drop_bit 16 v) :: 8 word))
     OR push_bit 24 (ucast (ucast (drop_bit 24 v) :: 8 word)) = v"
proof (rule bit_word_eqI)
  fix n
  assume "n < LENGTH(32)"
  then consider "n < 8" | "8 \<le> n" "n < 16" | "16 \<le> n" "n < 24" | "24 \<le> n" "n < 32"
    by fastforce
  then show "bit (ucast (ucast v :: 8 word)
     OR push_bit 8 (ucast (ucast (drop_bit 8 v) :: 8 word))
     OR push_bit 16 (ucast (ucast (drop_bit 16 v) :: 8 word))
     OR push_bit 24 (ucast (ucast (drop_bit 24 v) :: 8 word)) :: 32 word) n = bit v n"
    by cases (auto simp add: bit_simps)
qed

lemma connect_value_decode:
  fixes app proto :: "16 word"
  shows "decode_protocol_version (push_bit 16 (ucast app) OR ucast proto) = proto"
    and "decode_app_version (push_bit 16 (ucast app) OR ucast proto) = app"
proof -
  have m: "(0xffff :: 32 word) = mask 16"
    by (simp add: mask_eq_exp_minus_1)
  show "decode_protocol_version (push_bit 16 (ucast app) OR ucast proto) = proto"
    unfolding decode_protocol_version_def m
    by (rule bit_word_eqI) (auto simp add: bit_simps)
  show "decode_app_version (push_bit 16 (ucast app) OR ucast proto) = app"
    unfolding decode_app_version_def m
    by (rule bit_word_eqI) (auto simp add: bit_simps dest: bit_imp_le_length)
qed

lemma connect_value_zero:
  fixes app proto :: "16 word"
  shows "(push_bit 16 (ucast app) OR ucast proto = (0 :: 32 word)) = (app = 0 \<and> proto = 0)"
proof
  assume z: "push_bit 16 (ucast app) OR ucast proto = (0 :: 32 word)"
  have "proto = decode_protocol_version (push_bit 16 (ucast app) OR ucast proto)"
    and "app = decode_app_version (push_bit 16 (ucast app) OR ucast proto)"
    by (simp_all add: connect_value_decode)
  then show "app = 0 \<and> proto = 0"
    unfolding z by (simp add: decode_protocol_version_def decode_app_version_def)
next
  assume "app = 0 \<and> proto = 0"
  then show "push_bit 16 (ucast app) OR ucast proto = (0 :: 32 word)" by simp
qed

lemma tuple_uint32_bytes:
  assumes "map (mem_of (tuple_value t) after) [0, 1, 2, 3] = le_bytes32 v"
  shows "tuple_uint32 t after = v"
  using assms le_bytes32_read [of v]
  by (simp add: tuple_uint32_def le_bytes32_def)

lemma inbox_tuple_other_key:
  assumes "tuple_key u \<notin> {KEY_START, KEY_STOP, KEY_DISCONNECT, KEY_CONNECT}"
  shows "inbox_tuple u after hs = hs"
  using assms by (cases hs) (simp add: inbox_tuple_def)

lemma inbox_loop_other_keys:
  assumes "\<forall>u\<in>set us. tuple_key u \<notin> {KEY_START, KEY_STOP, KEY_DISCONNECT, KEY_CONNECT}"
  shows "inbox_loop us beyond hs = hs"
  using assms by (induction us arbitrary: hs) (simp_all add: inbox_tuple_other_key)

lemma inbox_tuple_connect:
  assumes "tuple_key t = KEY_CONNECT" "tuple_uint32 t after \<noteq> 0"
  shows "g_connected (snd (inbox_tuple t after (h, s)))
          = (decode_protocol_version (tuple_uint32 t after) = ucast PROTOCOL_VERSION
             \<and> decode_app_version (tuple_uint32 t after) = g_app_version s)"
    and "get_msg_flag KEY_CONNECT (snd (inbox_tuple t after (h, s)))"
    and "fst (inbox_tuple t after (h, s))"
  using assms
  by (auto simp add: inbox_tuple_def Let_def key_connect_distinct set_connected_g_connected
      get_set_msg_flag_connect word_greater_zero_iff)

subsection \<open>Sample accounting is kept by every handler\<close>

lemma samples_to_send_drop:
  "int (length (g_accel_buf s) - nat (samples_to_send s avail))
     = int (length (g_accel_buf s)) - samples_to_send s avail"
  using samples_to_send_bounds [of s avail] by simp

lemma send_data_fresh_conserves:
  "g_samples_sent (send_data_fresh s) + int (length (g_accel_buf (send_data_fresh s)))
     = g_samples_sent s + int (length (g_accel_buf s))"
  "g_samples_measured (send_data_fresh s) = g_samples_measured s"
  "length (g_accel_buf (send_data_fresh s)) \<le> length (g_accel_buf s)"
  by (auto simp add: send_data_fresh_def outbox_defs
      Let_def samples_to_send_drop split: list.splits prod.splits)

lemma send_data_resend_samples [simp]:
  "g_samples_sent (snd (send_data_resend s)) = g_samples_sent s"
  "g_samples_measured (snd (send_data_resend s)) = g_samples_measured s"
  "g_accel_buf (snd (send_data_resend s)) = g_accel_buf s"
  by (simp_all add: send_data_resend_def outbox_defs split: list.splits prod.splits)

lemma send_data_conserves:
  "g_samples_sent (send_data s) + int (length (g_accel_buf (send_data s)))
     = g_samples_sent s + int (length (g_accel_buf s))"
  "g_samples_measured (send_data s) = g_samples_measured s"
  "length (g_accel_buf (send_data s)) \<le> length (g_accel_buf s)"
  using send_data_fresh_conserves [of "snd (send_data_resend s)"]
    send_data_fresh_conserves [of s]
  by (auto simp add: send_data_alt)

lemma accounted_send_data: "accounted s \<Longrightarrow> accounted (send_data s)"
  using send_data_conserves [of s] by (simp add: accounted_def)

lemma accounted_start_recording: "accounted s \<Longrightarrow> accounted (start_recording s)"
proof (cases "g_recording s")
  case True
  then show "accounted s \<Longrightarrow> accounted (start_recording s)" by (simp add: start_recording_def)
next
  case False
  let ?s1 = "s\<lparr>g_sampling_rate := g_next_sampling_rate s, accel_subscribed := True,
                    sniff_interval_reduced := True,
                    g_accel_buf := [], g_samples_sent := 0, g_samples_measured := 0\<rparr>"
  have "accounted (clear_msg_flag KEY_STOP (set_msg_flag KEY_START ?s1))"
    by (simp add: accounted_def small_defs)
  then have "accounted (send_data (clear_msg_flag KEY_STOP (set_msg_flag KEY_START ?s1)))"
    by (rule accounted_send_data)
  then show "accounted (start_recording s)"
    using False by (simp add: start_recording_def Let_def accounted_def small_defs)
qed

lemma accounted_stop_recording: "accounted s \<Longrightarrow> accounted (stop_recording s)"
proof (cases "g_recording s")
  case False
  then show "accounted s \<Longrightarrow> accounted (stop_recording s)" by (simp add: stop_recording_def)
next
  case True
  assume "accounted s"
  then have "accounted (clear_msg_flag KEY_START (set_msg_flag KEY_STOP s))"
    by (simp add: accounted_def small_defs)
  then have "accounted (send_data (clear_msg_flag KEY_START (set_msg_flag KEY_STOP s)))"
    by (rule accounted_send_data)
  then show "accounted (stop_recording s)"
    using True by (simp add: stop_recording_def Let_def accounted_def small_defs)
qed

lemma accounted_set_connected: "accounted s \<Longrightarrow> accounted (set_connected c s)"
  using accounted_stop_recording [of s]
  by (auto simp add: set_connected_def Let_def accounted_def small_defs)

lemma accounted_data_timer_callback: "accounted s \<Longrightarrow> accounted (data_timer_callback now s)"
proof -
  assume "accounted s"
  then have "accounted (s\<lparr>g_data_timer := False\<rparr>)" by (simp add: accounted_def)
  then have a: "accounted (send_data (s\<lparr>g_data_timer := False\<rparr>))" by (rule accounted_send_data)
  have r: "accounted (register_data_timer t) = accounted t" for t
    by (simp add: register_data_timer_def accounted_def)
  show ?thesis using a accounted_set_connected [OF a, of False]
    by (simp add: data_timer_callback_def Let_def r)
qed

lemma accounted_outbox_failed_handler:
  "accounted s \<Longrightarrow> accounted (outbox_failed_handler m reason s)"
  using accounted_set_connected [of s False]
  by (auto simp add: outbox_failed_handler_def Let_def accounted_def small_defs
      split: option.splits)

lemma accounted_inbox_tuple: "accounted (snd hs) \<Longrightarrow> accounted (snd (inbox_tuple t after hs))"
proof (cases hs)
  case (Pair h s)
  have f: "accounted (set_msg_flag k u) = accounted u" for k u
    by (simp add: accounted_def small_defs)
  assume "accounted (snd hs)"
  then show ?thesis using Pair
    by (simp add: inbox_tuple_def Let_def accounted_start_recording
      accounted_stop_recording accounted_set_connected f)
qed

lemma accounted_inbox_loop: "accounted (snd hs) \<Longrightarrow> accounted (snd (inbox_loop ts beyond hs))"
  by (induction ts arbitrary: hs) (simp_all add: accounted_inbox_tuple)

lemma accounted_inbox_received_handler:
  assumes "accounted s" 
  shows "accounted (inbox_received_handler m beyond now s)"
proof -
  have "accounted (snd (False, s\<lparr>g_last_message_time := now\<rparr>))"
    using assms by (simp add: accounted_def)
  then have "accounted (snd (inbox_loop m beyond (False, s\<lparr>g_last_message_time := now\<rparr>)))"
    by (rule accounted_inbox_loop)
  then show ?thesis
    by (cases "inbox_loop m beyond (False, s\<lparr>g_last_message_time := now\<rparr>)")
      (simp add: inbox_received_handler_def accounted_def small_defs)
qed

lemma accounted_accel_handler: "accounted s \<Longrightarrow> accounted (accel_handler d s)"
  by (auto simp add: accel_handler_def Let_def accounted_def call_client_def ACCEL_BUF_SIZE_def)

lemma accounted_bluetooth_handler: "accounted s \<Longrightarrow> accounted (bluetooth_handler c s)"
  using accounted_set_connected [of s False]
  by (simp add: bluetooth_handler_def Let_def accounted_def small_defs)

lemma accounted_focusmotion_startup:
  "accounted s \<Longrightarrow> accounted (focusmotion_startup v h1 h2 h3 h4 h5 h6 md s)"
  by (simp add: focusmotion_startup_def register_data_timer_def accounted_def)

lemma accounted_shutdown_loop: "accounted s \<Longrightarrow> accounted (shutdown_loop n s)"
  by (induction n arbitrary: s) (simp_all add: accounted_send_data)

lemma accounted_focusmotion_shutdown: 
  assumes "accounted s" shows "accounted (focusmotion_shutdown s)"
proof -
  let ?s1 = "s\<lparr>g_inbox_received_handler := False, g_accel_handler := False,
                              g_bluetooth_handler := False, g_recording_handler := False,
                              g_connected_handler := False\<rparr>"
  have "accounted (set_msg_flag KEY_DISCONNECT ?s1)"
    using assms by (simp add: accounted_def small_defs)
  then have "accounted (shutdown_loop 5 (send_data (stop_recording (set_msg_flag KEY_DISCONNECT ?s1))))"
    by (intro accounted_shutdown_loop accounted_send_data accounted_stop_recording)
  then show ?thesis
    using assms by (simp add: focusmotion_shutdown_def Let_def accounted_def small_defs)
qed

lemma accounted_step: "accounted s \<Longrightarrow> accounted (step e s)"
proof (cases e)
  case (SetSamplingRate r)
  assume "accounted s"
  then show ?thesis using SetSamplingRate
    by (simp add: focusmotion_set_sampling_rate_def Let_def accounted_def)
qed (simp_all add: accounted_focusmotion_startup accounted_data_timer_callback
      accounted_inbox_received_handler accounted_outbox_failed_handler accounted_accel_handler
      accounted_bluetooth_handler accounted_start_recording accounted_stop_recording
      accounted_focusmotion_shutdown focusmotion_start_recording_def
      focusmotion_stop_recording_def)

lemma accounted_reachable: "reachable s \<Longrightarrow> accounted s"
proof (induction rule: reachable.induct)
  case (reachable_initial bs ss)
  show ?case by (simp add: accounted_def initial_state_def)
next
  case (reachable_step s e)
  then show ?case by (simp add: accounted_step)
qed

lemma send_data_keeps_equality:
  "g_samples_measured s = g_samples_sent s + int (length (g_accel_buf s)) \<Longrightarrow>
   g_samples_measured (send_data s)
     = g_samples_sent (send_data s) + int (length (g_accel_buf (send_data s)))"
  using send_data_conserves(1,2) [of s] by simp

lemma accel_handler_keeps_equality:
  assumes "g_samples_measured s = g_samples_sent s + int (length (g_accel_buf s))"
    and "length (g_accel_buf s) + length d \<le> 500"
  shows "g_samples_measured (accel_handler d s)
     = g_samples_sent (accel_handler d s) + int (length (g_accel_buf (accel_handler d s)))"
  using assms
  by (auto simp add: accel_handler_def Let_def call_client_def ACCEL_BUF_SIZE_def)

lemma start_recording_sets_equality:
  assumes "\<not> g_recording s"
  shows "g_samples_measured (start_recording s)
     = g_samples_sent (start_recording s) + int (length (g_accel_buf (start_recording s)))"
proof -
  let ?s1 = "clear_msg_flag KEY_STOP (set_msg_flag KEY_START
      (s\<lparr>g_sampling_rate := g_next_sampling_rate s, accel_subscribed := True,
         sniff_interval_reduced := True,
         g_accel_buf := [], g_samples_sent := 0, g_samples_measured := 0\<rparr>))"
  have "g_samples_measured ?s1 = g_samples_sent ?s1 + int (length (g_accel_buf ?s1))"
    by (simp add: small_defs)
  then have "g_samples_measured (send_data ?s1)
      = g_samples_sent (send_data ?s1) + int (length (g_accel_buf (send_data ?s1)))"
    by (rule send_data_keeps_equality)
  then show ?thesis
    using assms by (simp add: start_recording_def Let_def small_defs)
qed

subsection \<open>No handler arms the heartbeat flag\<close>

lemma heartbeat_clear_iff: "heartbeat_clear s \<longleftrightarrow> g_msg_flags s AND 512 = 0"
  by (simp add: heartbeat_clear_def get_msg_flag_def flag_bit_values)

lemma heartbeat_clear_set:
  assumes "k = KEY_START \<or> k = KEY_STOP \<or> k = KEY_CONNECT \<or> k = KEY_DISCONNECT"
  shows "heartbeat_clear (set_msg_flag k s) = heartbeat_clear s"
  using assms
  by (auto simp add: heartbeat_clear_iff set_msg_flag_def flag_bit_values word_ao_dist)

lemma and_keeps_clear:
  fixes f :: "32 word"
  assumes "f AND m = 0"
  shows "(f AND x) AND m = 0"
proof -
  have "(f AND x) AND m = (f AND m) AND x"
    by (simp add: ac_simps)
  then show ?thesis using assms by simp
qed

lemma heartbeat_clear_clear:
  "heartbeat_clear s \<Longrightarrow> heartbeat_clear (clear_msg_flag k s)"
  by (simp add: heartbeat_clear_iff clear_msg_flag_def and_keeps_clear)

lemma heartbeat_clear_new_msg_flags:
  "heartbeat_clear s \<Longrightarrow> new_msg_flags s avail AND 512 = 0"
  by (simp add: heartbeat_clear_iff new_msg_flags_def and_keeps_clear)

lemma heartbeat_clear_send_data_fresh: "heartbeat_clear s \<Longrightarrow> heartbeat_clear (send_data_fresh s)"
  using heartbeat_clear_new_msg_flags [of s]
  by (auto simp add: send_data_fresh_def outbox_defs Let_def heartbeat_clear_iff
      split: list.splits prod.splits)

lemma send_data_resend_flags [simp]:
  "g_msg_flags (snd (send_data_resend s)) = g_msg_flags s"
  by (simp_all add: send_data_resend_def outbox_defs split: list.splits prod.splits)

lemma heartbeat_clear_send_data: "heartbeat_clear s \<Longrightarrow> heartbeat_clear (send_data s)"
  using heartbeat_clear_send_data_fresh [of "snd (send_data_resend s)"]
    heartbeat_clear_send_data_fresh [of s]
  by (auto simp add: send_data_alt heartbeat_clear_iff)

lemma heartbeat_clear_start_recording: "heartbeat_clear s \<Longrightarrow> heartbeat_clear (start_recording s)"
proof (cases "g_recording s")
  case True
  then show "heartbeat_clear s \<Longrightarrow> heartbeat_clear (start_recording s)"
    by (simp add: start_recording_def)
next
  case False
  let ?s1 = "s\<lparr>g_sampling_rate := g_next_sampling_rate s, accel_subscribed := True,
                    sniff_interval_reduced := True,
                    g_accel_buf := [], g_samples_sent := 0, g_samples_measured := 0\<rparr>"
  assume "heartbeat_clear s"
  then have "heartbeat_clear ?s1" by (simp add: heartbeat_clear_iff)
  then have "heartbeat_clear (clear_msg_flag KEY_STOP (set_msg_flag KEY_START ?s1))"
    by (simp add: heartbeat_clear_clear heartbeat_clear_set)
  then have "heartbeat_clear (send_data (clear_msg_flag KEY_STOP (set_msg_flag KEY_START ?s1)))"
    by (rule heartbeat_clear_send_data)
  then show "heartbeat_clear (start_recording s)"
    using False by (simp add: start_recording_def Let_def heartbeat_clear_iff call_client_def)
qed

lemma heartbeat_clear_stop_recording: "heartbeat_clear s \<Longrightarrow> heartbeat_clear (stop_recording s)"
proof (cases "g_recording s")
  case False
  then show "heartbeat_clear s \<Longrightarrow> heartbeat_clear (stop_recording s)"
    by (simp add: stop_recording_def)
next
  case True
  assume "heartbeat_clear s"
  then have "heartbeat_clear (clear_msg_flag KEY_START (set_msg_flag KEY_STOP s))"
    by (simp add: heartbeat_clear_clear heartbeat_clear_set)
  then have "heartbeat_clear (send_data (clear_msg_flag KEY_START (set_msg_flag KEY_STOP s)))"
    by (rule heartbeat_clear_send_data)
  then show "heartbeat_clear (stop_recording s)"
    using True by (simp add: stop_recording_def Let_def heartbeat_clear_iff call_client_def)
qed

lemma heartbeat_clear_set_connected: "heartbeat_clear s \<Longrightarrow> heartbeat_clear (set_connected c s)"
  by (auto simp add: set_connected_def Let_def heartbeat_clear_iff small_defs flag_bit_values)

lemma heartbeat_clear_data_timer_callback:
  assumes "heartbeat_clear s"
  shows "heartbeat_clear (data_timer_callback now s)"
proof -
  have "heartbeat_clear (s\<lparr>g_data_timer := False\<rparr>)"
    using assms by (simp add: heartbeat_clear_iff)
  then have a: "heartbeat_clear (send_data (s\<lparr>g_data_timer := False\<rparr>))"
    by (rule heartbeat_clear_send_data)
  have r: "heartbeat_clear (register_data_timer t) = heartbeat_clear t" for t
    by (simp add: register_data_timer_def heartbeat_clear_iff)
  show ?thesis using a heartbeat_clear_set_connected [OF a, of False]
    by (simp add: data_timer_callback_def Let_def r)
qed

lemma heartbeat_clear_outbox_failed_handler:
  "heartbeat_clear s \<Longrightarrow> heartbeat_clear (outbox_failed_handler m reason s)"
  using heartbeat_clear_set_connected [of s False]
  by (auto simp add: outbox_failed_handler_def Let_def heartbeat_clear_iff small_defs
      split: option.splits)

lemma heartbeat_clear_inbox_tuple:
  "heartbeat_clear (snd hs) \<Longrightarrow> heartbeat_clear (snd (inbox_tuple t after hs))"
  by (cases hs)
    (simp add: inbox_tuple_def Let_def heartbeat_clear_start_recording
      heartbeat_clear_stop_recording heartbeat_clear_set_connected heartbeat_clear_set)

lemma heartbeat_clear_inbox_loop:
  "heartbeat_clear (snd hs) \<Longrightarrow> heartbeat_clear (snd (inbox_loop ts beyond hs))"
  by (induction ts arbitrary: hs) (simp_all add: heartbeat_clear_inbox_tuple)

lemma heartbeat_clear_inbox_received_handler:
  assumes "heartbeat_clear s"
  shows "heartbeat_clear (inbox_received_handler m beyond now s)"
proof -
  have "heartbeat_clear (snd (False, s\<lparr>g_last_message_time := now\<rparr>))"
    using assms by (simp add: heartbeat_clear_iff)
  then have "heartbeat_clear (snd (inbox_loop m beyond (False, s\<lparr>g_last_message_time := now\<rparr>)))"
    by (rule heartbeat_clear_inbox_loop)
  then show ?thesis
    by (cases "inbox_loop m beyond (False, s\<lparr>g_last_message_time := now\<rparr>)")
      (simp add: inbox_received_handler_def heartbeat_clear_iff small_defs)
qed

lemma heartbeat_clear_accel_handler: "heartbeat_clear s \<Longrightarrow> heartbeat_clear (accel_handler d s)"
  by (simp add: accel_handler_def Let_def heartbeat_clear_iff call_client_def)

lemma heartbeat_clear_bluetooth_handler:
  "heartbeat_clear s \<Longrightarrow> heartbeat_clear (bluetooth_handler c s)"
  using heartbeat_clear_set_connected [of s False]
  by (simp add: bluetooth_handler_def Let_def heartbeat_clear_iff small_defs)

lemma heartbeat_clear_focusmotion_startup:
  "heartbeat_clear s \<Longrightarrow> heartbeat_clear (focusmotion_startup v h1 h2 h3 h4 h5 h6 md s)"
  by (simp add: focusmotion_startup_def register_data_timer_def heartbeat_clear_iff)

lemma heartbeat_clear_shutdown_loop: "heartbeat_clear s \<Longrightarrow> heartbeat_clear (shutdown_loop n s)"
  by (induction n arbitrary: s) (simp_all add: heartbeat_clear_send_data)

lemma heartbeat_clear_focusmotion_shutdown:
  assumes "heartbeat_clear s"
  shows "heartbeat_clear (focusmotion_shutdown s)"
proof -
  let ?s1 = "s\<lparr>g_inbox_received_handler := False, g_accel_handler := False,
                 g_bluetooth_handler := False, g_recording_handler := False,
                 g_connected_handler := False\<rparr>"
  have "heartbeat_clear ?s1"
    using assms by (simp add: heartbeat_clear_iff)
  then have "heartbeat_clear (set_msg_flag KEY_DISCONNECT ?s1)"
    by (simp add: heartbeat_clear_set)
  then have "heartbeat_clear
      (shutdown_loop 5 (send_data (stop_recording (set_msg_flag KEY_DISCONNECT ?s1))))"
    by (intro heartbeat_clear_shutdown_loop heartbeat_clear_send_data
        heartbeat_clear_stop_recording)
  then show ?thesis
    using assms by (simp add: focusmotion_shutdown_def Let_def heartbeat_clear_iff small_defs)
qed

lemma heartbeat_clear_step: "heartbeat_clear s \<Longrightarrow> heartbeat_clear (step e s)"
proof (cases e)
  case (SetSamplingRate r)
  assume "heartbeat_clear s"
  then show ?thesis using SetSamplingRate
    by (simp add: focusmotion_set_sampling_rate_def Let_def heartbeat_clear_iff)
qed (simp_all add: heartbeat_clear_focusmotion_startup heartbeat_clear_data_timer_callback
      heartbeat_clear_inbox_received_handler heartbeat_clear_outbox_failed_handler
      heartbeat_clear_accel_handler heartbeat_clear_bluetooth_handler
      heartbeat_clear_start_recording heartbeat_clear_stop_recording
      heartbeat_clear_focusmotion_shutdown focusmotion_start_recording_def
      focusmotion_stop_recording_def)

lemma heartbeat_clear_reachable: "reachable s \<Longrightarrow> heartbeat_clear s"
proof (induction rule: reachable.induct)
  case (reachable_initial bs ss)
  show ?case by (simp add: heartbeat_clear_iff initial_state_def)
next
  case (reachable_step s e)
  then show ?case by (simp add: heartbeat_clear_step)
qed

lemma reachable_run: "reachable s \<Longrightarrow> reachable (run es s)"
  by (induction es arbitrary: s) (simp_all add: reachable_step)

lemma fresh_message_no_heartbeat:
  assumes "\<not> get_msg_flag KEY_HEARTBEAT s"
  shows "dict_write_uint8 KEY_HEARTBEAT 1 \<notin> set (fresh_message s avail)"
proof -
  have k: "KEY_HEARTBEAT \<noteq> KEY_CONNECT" "KEY_HEARTBEAT \<noteq> KEY_METADATA"
    "KEY_HEARTBEAT \<noteq> KEY_START" "KEY_HEARTBEAT \<noteq> KEY_SENSOR_OFFSET"
    "KEY_HEARTBEAT \<noteq> KEY_SENSOR_RATE" "KEY_HEARTBEAT \<noteq> KEY_SENSOR_DATA"
    "KEY_HEARTBEAT \<noteq> KEY_STOP" "KEY_HEARTBEAT \<noteq> KEY_DISCONNECT"
    by (simp_all add: key_defs)
  show ?thesis
    using assms k
    by (auto simp add: fresh_message_def dict_write_uint32_def dict_write_uint8_def
        dict_write_data_def)
qed

subsection \<open>The 32-bit counters\<close>

text \<open>
  A number within the range of a 32-bit \<open>int\<close> is what the C variable holds; adding to the
  variable is adding to the number, and so is what gets written into a message.
\<close>

lemma c_int_in_range:
  assumes "- (2 ^ 31) \<le> n" "n < 2 ^ 31"
  shows "c_int n = n"
proof -
  have "signed_take_bit 31 n = n"
    using assms by (intro signed_take_bit_int_eq_self) simp_all
  then show ?thesis
    by (simp add: c_int_def sint_sbintrunc')
qed

lemma c_int_add: "c_int (c_int m + n) = c_int (m + n)"
proof -
  have "(word_of_int (sint (word_of_int m :: 32 word) + n) :: 32 word) = word_of_int (m + n)"
    by simp
  then show ?thesis
    unfolding c_int_def by (rule arg_cong)
qed

lemma c_int_word: "(word_of_int (c_int n) :: 32 word) = word_of_int n"
  by (simp add: c_int_def)

subsection \<open>The example runs\<close>

lemma discard_run_fields:
  "(length (g_accel_buf (run discard_run (initial_state [] []))),
    g_samples_sent (run discard_run (initial_state [] [])),
    g_samples_measured (run discard_run (initial_state [] []))) = (0, 0, 3)"
  by code_simp

lemma overflow_run_fields:
  "(length (g_accel_buf (run overflow_run overflow_outbox)),
    g_samples_sent (run overflow_run overflow_outbox),
    g_samples_measured (run overflow_run overflow_outbox)) = (489, 11, 700)"
  by code_simp

lemma run_append: "run (xs @ ys) s = run ys (run xs s)"
  by (induction xs arbitrary: s) simp_all

lemma accel_handler_counters:
  "g_recording (accel_handler d s) = g_recording s"
  "g_samples_sent (accel_handler d s) = g_samples_sent s"
  "g_recording s \<Longrightarrow> g_samples_measured (accel_handler d s) = g_samples_measured s + int (length d)"
  by (simp_all add: accel_handler_def Let_def call_client_def)

lemma run_steady_deliveries:
  assumes "g_recording s"
  shows "g_samples_measured (run (steady_deliveries n) s) = g_samples_measured s + 16 * int n
    \<and> g_samples_sent (run (steady_deliveries n) s) = g_samples_sent s"
  using assms
proof (induction n arbitrary: s)
  case 0
  then show ?case by (simp add: steady_deliveries_def)
next
  case (Suc n)
  let ?d = "replicate 16 (AccelData 1 2 3 False 0)"
  have r: "g_recording (accel_handler ?d s)"
    using Suc.prems by (simp only: accel_handler_counters)
  have "run (steady_deliveries (Suc n)) s = run (steady_deliveries n) (accel_handler ?d s)"
    by (simp add: steady_deliveries_def)
  then show ?case
    using Suc.IH [OF r] Suc.prems by (simp add: accel_handler_counters)
qed

lemma connect_and_record_fields:
  "g_recording (run connect_and_record (initial_state [] []))"
  "g_samples_measured (run connect_and_record (initial_state [] [])) = 0"
  "g_samples_sent (run connect_and_record (initial_state [] [])) = 0"
  by code_simp+

lemma wrap_run_fields:
  "g_samples_measured (run wrap_run (initial_state [] [])) = 2 ^ 31"
  "g_samples_sent (run wrap_run (initial_state [] [])) = 0"
  using run_steady_deliveries [OF connect_and_record_fields(1), of "2 ^ 27"]
  by (simp_all only: wrap_run_def run_append connect_and_record_fields) simp_all

lemma wrap_run_c_int:
  "c_int (g_samples_measured (run wrap_run (initial_state [] []))) = - (2 ^ 31)"
  "c_int (g_samples_sent (run wrap_run (initial_state [] []))) = 0"
  by (simp_all add: wrap_run_fields c_int_def)

subsection \<open>The resend counter\<close>

lemma resend_copy_key: "t' \<in> set (resend_copy t) \<Longrightarrow> tuple_key t' = tuple_key t"
  by (cases "tuple_type t")
    (simp_all add: resend_copy_def dict_write_data_def dict_write_cstring_def dict_write_int_def)

lemma resend_loop_out_keys:
  "KEY_RESEND \<notin> tuple_key ` set out \<Longrightarrow>
   KEY_RESEND \<notin> tuple_key ` set (snd (resend_loop ts r out))"
proof (induction ts arbitrary: r out)
  case Nil
  then show ?case by simp
next
  case (Cons t ts)
  have "KEY_RESEND \<notin> tuple_key ` set (out @ resend_copy t)" if "tuple_key t \<noteq> KEY_RESEND"
    using Cons.prems that resend_copy_key [of _ t] by auto
  then show ?case
    using Cons by simp
qed

lemma resend_loop_counter_kept:
  "KEY_RESEND \<notin> tuple_key ` set ts \<Longrightarrow> fst (resend_loop ts r out) = r"
  by (induction ts arbitrary: r out) auto

lemma resend_loop_append:
  "resend_loop (xs @ ys) r out
     = resend_loop ys (fst (resend_loop xs r out)) (snd (resend_loop xs r out))"
  by (induction xs arbitrary: r out) simp_all

lemma key_resend_in_range: "KEYS_BEGIN < KEY_RESEND" "KEY_RESEND < KEYS_END"
  by (simp_all add: key_defs)

lemma resend_message_first:
  assumes "KEY_RESEND \<notin> tuple_key ` set m"
  shows "resend_message m = snd (resend_loop m (- 1) []) @ [dict_write_uint8 KEY_RESEND 0]"
proof -
  obtain r out where l: "resend_loop m (- 1) [] = (r, out)"
    by (cases "resend_loop m (- 1) []") simp
  then have "r = - 1"
    using resend_loop_counter_kept [OF assms, of "- 1" "[]"] by simp
  then show ?thesis
    using l by (simp add: resend_message_def)
qed

lemma resend_message_next:
  assumes "KEY_RESEND \<notin> tuple_key ` set b"
  shows "resend_message (b @ [dict_write_uint8 KEY_RESEND c])
     = snd (resend_loop b (- 1) []) @ [dict_write_uint8 KEY_RESEND (c + 1)]"
proof -
  have "resend_loop (b @ [dict_write_uint8 KEY_RESEND c]) (- 1) []
      = (uint c, snd (resend_loop b (- 1) []))"
    by (simp add: resend_loop_append dict_write_uint8_def key_resend_in_range tuple_uint8_def
        byte_at_def)
  then show ?thesis
    by (simp add: resend_message_def)
qed

lemma nth_resend_shape:
  assumes "KEY_RESEND \<notin> tuple_key ` set m"
  shows "\<exists>b. KEY_RESEND \<notin> tuple_key ` set b
           \<and> nth_resend (Suc k) m = b @ [dict_write_uint8 KEY_RESEND (of_nat k)]"
proof (induction k)
  case 0
  have "KEY_RESEND \<notin> tuple_key ` set (snd (resend_loop m (- 1) []))"
    by (rule resend_loop_out_keys) simp
  then show ?case
    using resend_message_first [OF assms] by auto
next
  case (Suc k)
  then obtain b where b: "KEY_RESEND \<notin> tuple_key ` set b"
    "nth_resend (Suc k) m = b @ [dict_write_uint8 KEY_RESEND (of_nat k)]"
    by blast
  have "KEY_RESEND \<notin> tuple_key ` set (snd (resend_loop b (- 1) []))"
    by (rule resend_loop_out_keys) simp
  moreover have "nth_resend (Suc (Suc k)) m
      = snd (resend_loop b (- 1) []) @ [dict_write_uint8 KEY_RESEND (of_nat (Suc k))]"
    using resend_message_next [OF b(1), of "of_nat k"] b(2) by (simp add: add.commute)
  ultimately show ?case by blast
qed

lemma dict_find_absent: "k \<notin> tuple_key ` set m \<Longrightarrow> dict_find m k = None"
  by (induction m) auto

lemma dict_find_last:
  "k \<notin> tuple_key ` set b \<Longrightarrow> tuple_key t = k \<Longrightarrow> dict_find (b @ [t]) k = Some t"
  by (induction b) auto

text \<open>The counter a resent message carries.\<close>

lemma nth_resend_counter:
  assumes "KEY_RESEND \<notin> tuple_key ` set m"
  shows "dict_find (nth_resend (Suc k) m) KEY_RESEND
     = Some (dict_write_uint8 KEY_RESEND (of_nat k))"
proof -
  obtain b where b: "KEY_RESEND \<notin> tuple_key ` set b"
    "nth_resend (Suc k) m = b @ [dict_write_uint8 KEY_RESEND (of_nat k)]"
    using nth_resend_shape [OF assms] by blast
  show ?thesis
    unfolding b(2) by (rule dict_find_last [OF b(1)]) (simp add: dict_write_uint8_def)
qed

lemma small_counter: "j < 256 \<Longrightarrow> ((of_nat j :: 8 word) > 5) = (j > 5)"
  by (simp add: word_less_nat_alt unat_of_nat)

lemma outbox_failed_handler_connected:
  assumes "g_connected s" and "reason \<noteq> APP_MSG_SEND_REJECTED"
  shows "dict_find m KEY_RESEND = Some t \<Longrightarrow> tuple_uint8 t > 5 \<Longrightarrow>
           \<not> g_connected (outbox_failed_handler m reason s)
           \<and> g_resend_buf (outbox_failed_handler m reason s) = []"
    and "dict_find m KEY_RESEND = None \<or> (\<exists>t. dict_find m KEY_RESEND = Some t \<and> \<not> tuple_uint8 t > 5)
          \<Longrightarrow> length (g_resend_buf s) < RESEND_BUF_SIZE \<Longrightarrow>
           g_connected (outbox_failed_handler m reason s)
           \<and> g_resend_buf (outbox_failed_handler m reason s) = g_resend_buf s @ [m]"
  using assms
  by (auto simp add: outbox_failed_handler_def Let_def set_connected_def small_defs)

subsection \<open>Where the session is disconnected\<close>

lemma send_data_fresh_g_connected [simp]: "g_connected (send_data_fresh s) = g_connected s"
  by (simp add: send_data_fresh_def outbox_defs Let_def split: list.splits prod.splits)

lemma send_data_resend_g_connected [simp]:
  "g_connected (snd (send_data_resend s)) = g_connected s"
  by (simp add: send_data_resend_def outbox_defs split: list.splits prod.splits)

lemma send_data_g_connected [simp]: "g_connected (send_data s) = g_connected s"
  by (simp add: send_data_alt)

lemma send_data_fresh_last_message_time [simp]:
  "g_last_message_time (send_data_fresh s) = g_last_message_time s"
  by (simp add: send_data_fresh_def outbox_defs Let_def split: list.splits prod.splits)

lemma send_data_resend_last_message_time [simp]:
  "g_last_message_time (snd (send_data_resend s)) = g_last_message_time s"
  by (simp add: send_data_resend_def outbox_defs split: list.splits prod.splits)

lemma send_data_last_message_time [simp]:
  "g_last_message_time (send_data s) = g_last_message_time s"
  by (simp add: send_data_alt)

text \<open>The five ways into the transition from connected to disconnected.\<close>

lemma disconnect_causes:
  "tuple_key t = KEY_DISCONNECT \<Longrightarrow> inbox_tuple t after (h, s) = (True, set_connected False s)"
  "tuple_key t = KEY_CONNECT \<Longrightarrow> tuple_uint32 t after \<noteq> 0 \<Longrightarrow>
     decode_protocol_version (tuple_uint32 t after) \<noteq> ucast PROTOCOL_VERSION
       \<or> decode_app_version (tuple_uint32 t after) \<noteq> g_app_version s \<Longrightarrow>
     inbox_tuple t after (h, s) = (True, set_msg_flag KEY_CONNECT (set_connected False s))"
  "bluetooth_handler False s
     = (if g_bluetooth_handler (set_connected False s)
        then call_client (BluetoothCall False) (set_connected False s)
        else set_connected False s)"
  "g_connected s \<Longrightarrow> 0 < g_last_message_time s \<Longrightarrow> 8 < now - g_last_message_time s \<Longrightarrow>
     data_timer_callback now s
       = register_data_timer (set_connected False (send_data (s\<lparr>g_data_timer := False\<rparr>)))"
  "g_connected s \<Longrightarrow> reason \<noteq> APP_MSG_SEND_REJECTED \<Longrightarrow>
     (\<exists>c. dict_find m KEY_RESEND = Some c \<and> 5 < tuple_uint8 c)
       \<or> RESEND_BUF_SIZE \<le> length (g_resend_buf s) \<Longrightarrow>
     outbox_failed_handler m reason s
       = (if g_outbox_failed_handler (set_connected False s)
          then call_client (OutboxFailedCall m reason) (set_connected False s)
          else set_connected False s)"
proof -
  have k: "KEY_DISCONNECT \<noteq> KEY_START" "KEY_DISCONNECT \<noteq> KEY_STOP"
    by (simp_all add: key_defs)
  show "tuple_key t = KEY_DISCONNECT \<Longrightarrow> inbox_tuple t after (h, s) = (True, set_connected False s)"
    by (simp add: inbox_tuple_def k)
  show "tuple_key t = KEY_CONNECT \<Longrightarrow> tuple_uint32 t after \<noteq> 0 \<Longrightarrow>
     decode_protocol_version (tuple_uint32 t after) \<noteq> ucast PROTOCOL_VERSION
       \<or> decode_app_version (tuple_uint32 t after) \<noteq> g_app_version s \<Longrightarrow>
     inbox_tuple t after (h, s) = (True, set_msg_flag KEY_CONNECT (set_connected False s))"
    by (auto simp add: inbox_tuple_def Let_def key_connect_distinct word_greater_zero_iff)
  show "bluetooth_handler False s
     = (if g_bluetooth_handler (set_connected False s)
        then call_client (BluetoothCall False) (set_connected False s)
        else set_connected False s)"
    by (simp add: bluetooth_handler_def)
  show "g_connected s \<Longrightarrow> 0 < g_last_message_time s \<Longrightarrow> 8 < now - g_last_message_time s \<Longrightarrow>
     data_timer_callback now s
       = register_data_timer (set_connected False (send_data (s\<lparr>g_data_timer := False\<rparr>)))"
    by (simp add: data_timer_callback_def)
  show "g_connected s \<Longrightarrow> reason \<noteq> APP_MSG_SEND_REJECTED \<Longrightarrow>
     (\<exists>c. dict_find m KEY_RESEND = Some c \<and> 5 < tuple_uint8 c)
       \<or> RESEND_BUF_SIZE \<le> length (g_resend_buf s) \<Longrightarrow>
     outbox_failed_handler m reason s
       = (if g_outbox_failed_handler (set_connected False s)
          then call_client (OutboxFailedCall m reason) (set_connected False s)
          else set_connected False s)"
    by (auto simp add: outbox_failed_handler_def split: option.splits)
qed

text \<open>A fresh message carries no resend counter.\<close>

lemma fresh_message_no_resend: "KEY_RESEND \<notin> tuple_key ` set (fresh_message s avail)"
  by (auto simp add: fresh_message_def dict_write_uint32_def dict_write_uint8_def
      dict_write_data_def key_defs)

section \<open>Properties of the engine\<close>

subsection \<open>Disconnecting\<close>

text \<open>
  C9.  Requesting a disconnect (\<open>set_connected(false)\<close>) while the session is already
  disconnected returns the state unchanged: no global, buffer, queue, counter or pending
  flag changes, nothing is sent and no client handler is called (the record includes the
  log of sent messages and of handler calls).  Hence disconnecting twice is the same as
  disconnecting once.
\<close>

theorem disconnect_when_disconnected_is_noop:
  "(\<not> g_connected s \<longrightarrow> set_connected False s = s)
   \<and> set_connected False (set_connected False s) = set_connected False s"
proof -
  have a: "\<not> g_connected s \<longrightarrow> set_connected False s = s"
    by (simp add: set_connected_def)
  have "\<not> g_connected (set_connected False s)"
    by (simp add: set_connected_g_connected)
  then have b: "set_connected False (set_connected False s) = set_connected False s"
    by (simp add: set_connected_def[of False "set_connected False s"])
  from a b show ?thesis by blast
qed

theorem disconnect_when_disconnected_is_noop_witness:
  "\<not> g_connected (initial_state [] [])
   \<and> set_connected False (initial_state [] []) = initial_state [] []"
  using disconnect_when_disconnected_is_noop [of "initial_state [] []"]
  by (simp add: initial_state_def)

text \<open>
  C7.  The transition from connected to disconnected, \<open>set_connected(false)\<close> in a
  connected state, which a received Disconnect, a version mismatch, the loss of the link,
  the liveness timeout and the exhaustion of the retries all call: when it is done the
  session is not recording, the sample buffer and the resend queue are empty, the time of
  the last message is reset to 0 (inactive), and the pending flags are exactly the
  disconnect flag.
\<close>

theorem disconnect_transition_resets:
  assumes "g_connected s"
  shows "\<not> g_connected (set_connected False s)
    \<and> \<not> g_recording (set_connected False s)
    \<and> g_accel_buf (set_connected False s) = []
    \<and> g_resend_buf (set_connected False s) = []
    \<and> g_last_message_time (set_connected False s) = 0
    \<and> g_msg_flags (set_connected False s) = flag_bit KEY_DISCONNECT
    \<and> get_msg_flag KEY_DISCONNECT (set_connected False s)
    \<and> \<not> get_msg_flag KEY_CONNECT (set_connected False s)
    \<and> \<not> get_msg_flag KEY_START (set_connected False s)
    \<and> \<not> get_msg_flag KEY_STOP (set_connected False s)
    \<and> \<not> get_msg_flag KEY_HEARTBEAT (set_connected False s)"
  using assms stop_recording_not_recording [of s]
  by (simp add: set_connected_def Let_def call_client_def set_msg_flag_def
      clear_resend_buf_def get_msg_flag_def flag_bit_values)

theorem disconnect_transition_resets_witness:
  "g_connected ((initial_state [] [])\<lparr>g_connected := True, g_recording := True,
       g_msg_flags := 1, g_last_message_time := 77\<rparr>)
   \<and> \<not> g_recording (set_connected False ((initial_state [] [])\<lparr>g_connected := True,
       g_recording := True, g_msg_flags := 1, g_last_message_time := 77\<rparr>))
   \<and> g_last_message_time (set_connected False ((initial_state [] [])\<lparr>g_connected := True,
       g_recording := True, g_msg_flags := 1, g_last_message_time := 77\<rparr>)) = 0
   \<and> g_msg_flags (set_connected False ((initial_state [] [])\<lparr>g_connected := True,
       g_recording := True, g_msg_flags := 1, g_last_message_time := 77\<rparr>)) = 64"
  using disconnect_transition_resets [of "(initial_state [] [])\<lparr>g_connected := True,
       g_recording := True, g_msg_flags := 1, g_last_message_time := 77\<rparr>"]
  by (simp add: initial_state_def flag_bit_values)

subsection \<open>Delivery failures that are ignored\<close>

text \<open>
  C10.  A delivery failure with reason \<open>APP_MSG_SEND_REJECTED\<close> leaves the whole state
  unchanged: nothing is queued, the session is untouched and the client's outbox-failed
  handler is not called.  A delivery failure that arrives while the session is
  disconnected changes nothing but the log of client calls, and that only by the call of
  the client's outbox-failed handler, when one is registered and the reason is not the
  rejected one.
\<close>

theorem outbox_failure_ignored:
  "outbox_failed_handler m APP_MSG_SEND_REJECTED s = s
   \<and> (\<not> g_connected s \<longrightarrow>
        outbox_failed_handler m reason s
          = (if reason \<noteq> APP_MSG_SEND_REJECTED \<and> g_outbox_failed_handler s
             then s\<lparr>client_calls := client_calls s @ [OutboxFailedCall m reason]\<rparr>
             else s)
        \<and> g_resend_buf (outbox_failed_handler m reason s) = g_resend_buf s)"
  by (simp add: outbox_failed_handler_def call_client_def)

theorem outbox_failure_ignored_witness:
  "\<not> g_connected ((initial_state [] [])\<lparr>g_outbox_failed_handler := True\<rparr>)
   \<and> outbox_failed_handler [dict_write_uint8 KEY_START 1] APP_MSG_SEND_TIMEOUT
        ((initial_state [] [])\<lparr>g_outbox_failed_handler := True\<rparr>)
      = (initial_state [] [])\<lparr>g_outbox_failed_handler := True,
           client_calls := [OutboxFailedCall [dict_write_uint8 KEY_START 1] APP_MSG_SEND_TIMEOUT]\<rparr>"
  using outbox_failure_ignored [of "[dict_write_uint8 KEY_START 1]"
      "(initial_state [] [])\<lparr>g_outbox_failed_handler := True\<rparr>" APP_MSG_SEND_TIMEOUT]
  by (simp add: initial_state_def)

subsection \<open>Incoming samples\<close>

text \<open>
  C6.  A delivery of samples while recording adds the full incoming count to the measured
  counter and appends to the buffer the first incoming samples, as many as the free
  capacity (500 minus the buffered count) admits; the rest, the newest ones, are dropped.
  So the buffered count becomes the smaller of 500 and the old count plus the incoming
  count, and 700 samples pushed into an empty buffer leave 500 buffered and 700 more
  measured.
\<close>

theorem accel_handler_overflow_shedding:
  assumes "g_recording s"
  shows "g_samples_measured (accel_handler d s) = g_samples_measured s + int (length d)
    \<and> g_accel_buf (accel_handler d s)
        = g_accel_buf s @ map to_sample (take (500 - length (g_accel_buf s)) d)
    \<and> (length (g_accel_buf s) \<le> 500 \<longrightarrow>
         length (g_accel_buf (accel_handler d s)) = min 500 (length (g_accel_buf s) + length d))
    \<and> (g_accel_buf s = [] \<and> length d = 700 \<longrightarrow>
         length (g_accel_buf (accel_handler d s)) = 500
         \<and> g_samples_measured (accel_handler d s) = g_samples_measured s + 700)"
proof -
  have m: "g_samples_measured (accel_handler d s) = g_samples_measured s + int (length d)"
    using assms by (simp add: accel_handler_def Let_def call_client_def)
  have b: "g_accel_buf (accel_handler d s)
        = g_accel_buf s @ map to_sample (take (500 - length (g_accel_buf s)) d)"
    using assms
    by (auto simp add: accel_handler_def Let_def call_client_def ACCEL_BUF_SIZE_def
        nat_diff_distrib')
  have l: "length (g_accel_buf s) \<le> 500 \<longrightarrow>
         length (g_accel_buf (accel_handler d s)) = min 500 (length (g_accel_buf s) + length d)"
    by (auto simp add: b min_def)
  have e: "g_accel_buf s = [] \<and> length d = 700 \<longrightarrow>
         length (g_accel_buf (accel_handler d s)) = 500
         \<and> g_samples_measured (accel_handler d s) = g_samples_measured s + 700"
    by (simp add: b m)
  from m b l e show ?thesis by blast
qed

theorem accel_handler_overflow_shedding_witness:
  "g_recording ((initial_state [] [])\<lparr>g_recording := True\<rparr>)
   \<and> length (g_accel_buf (accel_handler (replicate 700 (AccelData 1 2 3 False 0))
        ((initial_state [] [])\<lparr>g_recording := True\<rparr>))) = 500
   \<and> g_samples_measured (accel_handler (replicate 700 (AccelData 1 2 3 False 0))
        ((initial_state [] [])\<lparr>g_recording := True\<rparr>)) = 700"
  using accel_handler_overflow_shedding
    [of "(initial_state [] [])\<lparr>g_recording := True\<rparr>" "replicate 700 (AccelData 1 2 3 False 0)"]
  by (simp add: initial_state_def)

subsection \<open>The version gate\<close>

text \<open>
  C5.  A received message with a Connect tuple at any place.  The four bytes at the value
  of the tuple (bytes of the tuples behind it, or of the memory behind the message, where
  the value is shorter) are those of a nonzero 32-bit number with the protocol version
  \<open>proto\<close> in its low and the app version \<open>app\<close> in its high 16 bits.  The handler works
  through the tuples before, this tuple, and the tuples behind.  Whatever the state before
  this tuple, after it the session is connected exactly if \<open>proto\<close> is \<open>PROTOCOL_VERSION\<close>
  and \<open>app\<close> is the registered \<open>g_app_version\<close>, and the connect flag is pending.  Where
  no Start, Stop, Disconnect or Connect tuple follows, this is the state the handler ends
  in: on a mismatch of either version the session is disconnected and the connect flag
  pending, on a match of both it is connected and the connect flag pending.
\<close>

theorem connect_version_gate:
  fixes app proto :: "16 word"
  assumes "tuple_key t = KEY_CONNECT"
    and "map (mem_of (tuple_value t) (mem_of (concat (map tuple_bytes post)) beyond)) [0, 1, 2, 3]
           = le_bytes32 (push_bit 16 (ucast app) OR ucast proto)"
    and "app \<noteq> 0 \<or> proto \<noteq> 0"
  shows "inbox_loop (pre @ t # post) beyond hs
           = inbox_loop post beyond
               (inbox_tuple t (mem_of (concat (map tuple_bytes post)) beyond)
                  (inbox_loop pre (mem_of (concat (map tuple_bytes (t # post))) beyond) hs))
       \<and> fst (inbox_tuple t (mem_of (concat (map tuple_bytes post)) beyond) (h, s1))
       \<and> g_connected (snd (inbox_tuple t (mem_of (concat (map tuple_bytes post)) beyond) (h, s1)))
           = (proto = ucast PROTOCOL_VERSION \<and> app = g_app_version s1)
       \<and> get_msg_flag KEY_CONNECT
            (snd (inbox_tuple t (mem_of (concat (map tuple_bytes post)) beyond) (h, s1)))
       \<and> ((\<forall>u\<in>set post. tuple_key u \<notin> {KEY_START, KEY_STOP, KEY_DISCONNECT, KEY_CONNECT}) \<longrightarrow>
            (proto \<noteq> ucast PROTOCOL_VERSION \<or> app \<noteq> g_app_version s \<longrightarrow>
               \<not> g_connected (inbox_received_handler (pre @ t # post) beyond now s)
               \<and> get_msg_flag KEY_CONNECT (inbox_received_handler (pre @ t # post) beyond now s))
            \<and> (proto = ucast PROTOCOL_VERSION \<and> app = g_app_version s \<longrightarrow>
               g_connected (inbox_received_handler (pre @ t # post) beyond now s)
               \<and> get_msg_flag KEY_CONNECT (inbox_received_handler (pre @ t # post) beyond now s)))"
proof -
  let ?after = "mem_of (concat (map tuple_bytes post)) beyond"
  let ?v = "push_bit 16 (ucast app) OR ucast proto :: 32 word"
  have v: "tuple_uint32 t ?after = ?v"
    using assms(2) by (rule tuple_uint32_bytes)
  have nz: "tuple_uint32 t ?after \<noteq> 0"
    using assms(3) by (simp add: v connect_value_zero)
  have d: "decode_protocol_version (tuple_uint32 t ?after) = proto"
    "decode_app_version (tuple_uint32 t ?after) = app"
    by (simp_all add: v connect_value_decode)
  have tup: "fst (inbox_tuple t ?after (h', s'))"
    "g_connected (snd (inbox_tuple t ?after (h', s')))
       = (proto = ucast PROTOCOL_VERSION \<and> app = g_app_version s')"
    "get_msg_flag KEY_CONNECT (snd (inbox_tuple t ?after (h', s')))" for h' s'
    using inbox_tuple_connect [OF assms(1) nz, of h' s'] by (simp_all add: d)
  have split: "inbox_loop (pre @ t # post) beyond hs
           = inbox_loop post beyond
               (inbox_tuple t ?after
                  (inbox_loop pre (mem_of (concat (map tuple_bytes (t # post))) beyond) hs))"
    by (simp add: inbox_loop_append)
  have handler: "g_connected (inbox_received_handler (pre @ t # post) beyond now s)
           = (proto = ucast PROTOCOL_VERSION \<and> app = g_app_version s)
       \<and> get_msg_flag KEY_CONNECT (inbox_received_handler (pre @ t # post) beyond now s)"
    if other: "\<forall>u\<in>set post. tuple_key u \<notin> {KEY_START, KEY_STOP, KEY_DISCONNECT, KEY_CONNECT}"
  proof -
    obtain h0 s0 where p: "inbox_loop pre (mem_of (concat (map tuple_bytes (t # post))) beyond)
        (False, s\<lparr>g_last_message_time := now\<rparr>) = (h0, s0)"
      by (cases "inbox_loop pre (mem_of (concat (map tuple_bytes (t # post))) beyond)
        (False, s\<lparr>g_last_message_time := now\<rparr>)") simp
    have a: "g_app_version s0 = g_app_version s"
      using arg_cong [OF p, of "\<lambda>x. g_app_version (snd x)"] by simp
    obtain h2 s2 where q: "inbox_tuple t ?after (h0, s0) = (h2, s2)"
      by (cases "inbox_tuple t ?after (h0, s0)") simp
    have l: "inbox_loop (pre @ t # post) beyond (False, s\<lparr>g_last_message_time := now\<rparr>) = (h2, s2)"
      using p q by (simp add: inbox_loop_append inbox_loop_other_keys [OF other])
    have "h2" "g_connected s2 = (proto = ucast PROTOCOL_VERSION \<and> app = g_app_version s)"
      "get_msg_flag KEY_CONNECT s2"
      using tup [of h0 s0] q a by simp_all
    then show ?thesis
      by (simp add: inbox_received_handler_def l)
  qed
  from split tup [of h s1] handler show ?thesis by blast
qed

theorem connect_version_gate_witness:
  "tuple_key (dict_write_uint32 KEY_CONNECT 0x00070004) = KEY_CONNECT
   \<and> tuple_value (dict_write_uint32 KEY_CONNECT 0x00070004)
       = le_bytes32 (push_bit 16 (ucast (7 :: 16 word)) OR ucast (4 :: 16 word))
   \<and> tuple_value (dict_write_uint32 KEY_CONNECT 0x00070004) = [4, 0, 7, 0]
   \<and> (4 :: 16 word) \<noteq> ucast PROTOCOL_VERSION
   \<and> \<not> g_connected (inbox_received_handler [dict_write_uint32 KEY_CONNECT 0x00070004]
          (\<lambda>i. 0) 100 gate_state)
   \<and> get_msg_flag KEY_CONNECT (inbox_received_handler [dict_write_uint32 KEY_CONNECT 0x00070004]
          (\<lambda>i. 0) 100 gate_state)
   \<and> (8 :: 16 word) \<noteq> g_app_version gate_state
   \<and> \<not> g_connected (inbox_received_handler [dict_write_uint32 KEY_CONNECT 0x00080003]
          (\<lambda>i. 0) 100 gate_state)
   \<and> get_msg_flag KEY_CONNECT (inbox_received_handler [dict_write_uint32 KEY_CONNECT 0x00080003]
          (\<lambda>i. 0) 100 gate_state)
   \<and> (3 :: 16 word) = ucast PROTOCOL_VERSION \<and> (7 :: 16 word) = g_app_version gate_state
   \<and> g_connected (inbox_received_handler [dict_write_uint32 KEY_CONNECT 0x00070003]
          (\<lambda>i. 0) 100 (gate_state\<lparr>g_connected := False\<rparr>))
   \<and> get_msg_flag KEY_CONNECT (inbox_received_handler [dict_write_uint32 KEY_CONNECT 0x00070003]
          (\<lambda>i. 0) 100 (gate_state\<lparr>g_connected := False\<rparr>))
   \<and> map (mem_of (tuple_value (Tuple KEY_CONNECT TUPLE_UINT [3]))
             (mem_of (concat (map tuple_bytes [dict_write_uint8 KEY_HEARTBEAT 1])) (\<lambda>i. 0)))
         [0, 1, 2, 3]
       = le_bytes32 (push_bit 16 (ucast (0x4d00 :: 16 word)) OR ucast (0x0903 :: 16 word))
   \<and> le_bytes32 (push_bit 16 (ucast (0x4d00 :: 16 word)) OR ucast (0x0903 :: 16 word))
       = [3, 9, 0, 0x4d]
   \<and> tuple_uint32 (Tuple KEY_CONNECT TUPLE_UINT [3])
         (mem_of (concat (map tuple_bytes [dict_write_uint8 KEY_START 1])) (\<lambda>i. 0))
       = 0x4d000003
   \<and> \<not> g_connected (inbox_received_handler
          [Tuple KEY_CONNECT TUPLE_UINT [3], dict_write_uint8 KEY_HEARTBEAT 1]
          (\<lambda>i. 0) 100 gate_state)"
  using
    connect_version_gate [of "dict_write_uint32 KEY_CONNECT 0x00070004" "[]" "\<lambda>i. 0" 7 4
      "[]" _ _ _ gate_state 100]
    connect_version_gate [of "dict_write_uint32 KEY_CONNECT 0x00080003" "[]" "\<lambda>i. 0" 8 3
      "[]" _ _ _ gate_state 100]
    connect_version_gate [of "dict_write_uint32 KEY_CONNECT 0x00070003" "[]" "\<lambda>i. 0" 7 3
      "[]" _ _ _ "gate_state\<lparr>g_connected := False\<rparr>" 100]
    connect_version_gate [of "Tuple KEY_CONNECT TUPLE_UINT [3]"
      "[dict_write_uint8 KEY_HEARTBEAT 1]" "\<lambda>i. 0" "0x4d00" "0x0903"
      "[]" _ _ _ gate_state 100]
  by (simp add: gate_state_def initial_state_def mem_of_def tuple_bytes_def le_bytes32_def
      le_bytes16_def dict_write_uint32_def dict_write_uint8_def key_defs PROTOCOL_VERSION_def
      tuple_uint32_def)

subsection \<open>Stop and disconnect wait for the buffer to drain\<close>

text \<open>
  C1.  A send cycle with the stop or the disconnect flag pending, in which the outbox
  opens (with \<open>avail\<close> bytes left) and the message is handed over with result \<open>r\<close>; with
  an empty resend queue the cycle is the fresh send alone.  Exactly one message,
  \<open>fresh_message s avail\<close>, is attempted.  If the number of samples that fit
  (\<open>samples_max avail\<close>: the whole 6-byte samples in the bytes left less a margin of 32)
  is below the buffered count, the message has neither a Stop nor a Disconnect field, and after a successful send both flags are pending exactly as before.
  If the whole buffer fits (or the buffer is empty) and stop is pending, the message has
  the Stop field with the pair (samples sent so far plus the buffered count that this
  message drains, samples measured), and a successful send empties the buffer and
  advances the sent counter by that count.
\<close>

theorem partial_drain_defers_stop:
  assumes "outbox_begin_results s = (APP_MSG_OK, avail) # bs"
    and "outbox_send_results s = r # rs"
    and "get_msg_flag KEY_STOP s \<or> get_msg_flag KEY_DISCONNECT s"
  shows "(g_resend_buf s = [] \<longrightarrow> send_data s = send_data_fresh s)
    \<and> outbox_log (send_data_fresh s) = outbox_log s @ [(fresh_message s avail, r)]
    \<and> (32 \<le> avail \<and> avail < 2 ^ 31 \<longrightarrow> samples_max avail = (avail - 32) div 6)
    \<and> (samples_max avail < int (length (g_accel_buf s)) \<longrightarrow>
          KEY_STOP \<notin> tuple_key ` set (fresh_message s avail)
          \<and> KEY_DISCONNECT \<notin> tuple_key ` set (fresh_message s avail)
          \<and> (r = APP_MSG_OK \<longrightarrow>
                get_msg_flag KEY_STOP (send_data_fresh s) = get_msg_flag KEY_STOP s
                \<and> get_msg_flag KEY_DISCONNECT (send_data_fresh s)
                    = get_msg_flag KEY_DISCONNECT s))
    \<and> (int (length (g_accel_buf s)) \<le> samples_max avail \<and> get_msg_flag KEY_STOP s \<longrightarrow>
          dict_write_data KEY_STOP
            (le_bytes32 (word_of_int (g_samples_sent s + int (length (g_accel_buf s))))
             @ le_bytes32 (word_of_int (g_samples_measured s)))
          \<in> set (fresh_message s avail)
          \<and> (r = APP_MSG_OK \<longrightarrow>
                g_accel_buf (send_data_fresh s) = []
                \<and> g_samples_sent (send_data_fresh s)
                    = g_samples_sent s + int (length (g_accel_buf s))))"
proof -
  have nz: "g_accel_buf s \<noteq> [] \<or> g_msg_flags s \<noteq> 0"
    using assms(3) flag_set_nonzero by blast
  note eq = send_data_fresh_attempt [OF assms(1,2) nz]
  have a: "g_resend_buf s = [] \<longrightarrow> send_data s = send_data_fresh s"
    by (simp add: send_data_def)
  have b: "outbox_log (send_data_fresh s) = outbox_log s @ [(fresh_message s avail, r)]"
    by (simp add: eq)
  have c: "samples_max avail < int (length (g_accel_buf s)) \<longrightarrow>
          KEY_STOP \<notin> tuple_key ` set (fresh_message s avail)
          \<and> KEY_DISCONNECT \<notin> tuple_key ` set (fresh_message s avail)
          \<and> (r = APP_MSG_OK \<longrightarrow>
                get_msg_flag KEY_STOP (send_data_fresh s) = get_msg_flag KEY_STOP s
                \<and> get_msg_flag KEY_DISCONNECT (send_data_fresh s)
                    = get_msg_flag KEY_DISCONNECT s)"
    using fresh_message_partial_keys [of avail s] new_msg_flags_partial [of avail s]
    by (simp add: eq get_msg_flag_def)
  have d: "int (length (g_accel_buf s)) \<le> samples_max avail \<and> get_msg_flag KEY_STOP s \<longrightarrow>
          dict_write_data KEY_STOP
            (le_bytes32 (word_of_int (g_samples_sent s + int (length (g_accel_buf s))))
             @ le_bytes32 (word_of_int (g_samples_measured s)))
          \<in> set (fresh_message s avail)
          \<and> (r = APP_MSG_OK \<longrightarrow>
                g_accel_buf (send_data_fresh s) = []
                \<and> g_samples_sent (send_data_fresh s)
                    = g_samples_sent s + int (length (g_accel_buf s)))"
    using fresh_message_stop [of s avail] samples_to_send_all [of s avail]
    by (simp add: eq)
  have e: "32 \<le> avail \<and> avail < 2 ^ 31 \<longrightarrow> samples_max avail = (avail - 32) div 6"
    using samples_max_in_range [of avail] by blast
  from a b c d e show ?thesis by blast
qed

theorem partial_drain_defers_stop_witness:
  "outbox_begin_results (stop_pending_example 50) = [(APP_MSG_OK, 50)]
   \<and> outbox_send_results (stop_pending_example 50) = [APP_MSG_OK]
   \<and> get_msg_flag KEY_STOP (stop_pending_example 50)
   \<and> samples_max 50 < int (length (g_accel_buf (stop_pending_example 50)))
   \<and> KEY_STOP \<notin> tuple_key ` set (fresh_message (stop_pending_example 50) 50)
   \<and> get_msg_flag KEY_STOP (send_data_fresh (stop_pending_example 50))
   \<and> outbox_begin_results (stop_pending_example 3000) = [(APP_MSG_OK, 3000)]
   \<and> samples_max 3000 = 494
   \<and> int (length (g_accel_buf (stop_pending_example 3000))) \<le> samples_max 3000
   \<and> dict_write_data KEY_STOP (le_bytes32 15 @ le_bytes32 15)
        \<in> set (fresh_message (stop_pending_example 3000) 3000)
   \<and> g_accel_buf (send_data_fresh (stop_pending_example 3000)) = []
   \<and> g_samples_sent (send_data_fresh (stop_pending_example 3000)) = 15"
  using partial_drain_defers_stop [of "stop_pending_example 50" 50 "[]" APP_MSG_OK "[]"]
    partial_drain_defers_stop [of "stop_pending_example 3000" 3000 "[]" APP_MSG_OK "[]"]
  by (simp add: stop_pending_example_def initial_state_def samples_max_def get_msg_flag_def
      flag_bit_values)

subsection \<open>Accounting of samples\<close>

text \<open>
  C3, the claim as stated fails.  Two reachable states with a buffer that is not full in
  which the measured counter differs from the sent counter plus the buffered count: after
  a disconnect has discarded three buffered samples (measured 3, sent 0, buffered 0), and
  after 200 of 700 samples were dropped on overflow and a send took 11 samples out of the
  full buffer (measured 700, sent 11, buffered 489).  And a reachable state in which the
  measured counter is below the sent counter: after \<open>2^31\<close> samples were measured and none
  sent, the 32-bit measured counter has wrapped to \<open>-2^31\<close>.
\<close>

theorem accounting_equality_counterexample:
  "reachable (run discard_run (initial_state [] []))
   \<and> length (g_accel_buf (run discard_run (initial_state [] []))) < 500
   \<and> g_samples_measured (run discard_run (initial_state [] []))
        \<noteq> g_samples_sent (run discard_run (initial_state [] []))
            + int (length (g_accel_buf (run discard_run (initial_state [] []))))
   \<and> reachable (run overflow_run overflow_outbox)
   \<and> length (g_accel_buf (run overflow_run overflow_outbox)) < 500
   \<and> g_samples_measured (run overflow_run overflow_outbox)
        \<noteq> g_samples_sent (run overflow_run overflow_outbox)
            + int (length (g_accel_buf (run overflow_run overflow_outbox)))
   \<and> reachable (run wrap_run (initial_state [] []))
   \<and> c_int (g_samples_measured (run wrap_run (initial_state [] []))) = - (2 ^ 31)
   \<and> c_int (g_samples_sent (run wrap_run (initial_state [] []))) = 0
   \<and> \<not> c_int (g_samples_measured (run wrap_run (initial_state [] [])))
          \<ge> c_int (g_samples_sent (run wrap_run (initial_state [] [])))"
proof -
  have "reachable (run discard_run (initial_state [] []))"
    by (intro reachable_run reachable_initial)
  moreover have "reachable (run overflow_run overflow_outbox)"
    unfolding overflow_outbox_def by (intro reachable_run reachable_initial)
  moreover have "reachable (run wrap_run (initial_state [] []))"
    by (intro reachable_run reachable_initial)
  ultimately show ?thesis
    using discard_run_fields overflow_run_fields wrap_run_c_int by simp
qed

text \<open>
  C3, amended.  In every reachable state in which fewer than \<open>2^31\<close> samples have been
  measured since the recording started, the two C counters hold the exact numbers of
  samples sent and measured, the measured counter is at least the sent counter plus the
  buffered count, hence at least the sent counter, and the buffered count is at most 500.
  The numbers of samples measured, sent and buffered satisfy measured = sent + buffered
  when a recording has started, and every send cycle and every delivery of samples that
  fits into the free capacity keeps this equality.
\<close>

theorem sample_accounting:
  "(reachable s \<and> g_samples_measured s < 2 ^ 31 \<longrightarrow>
      c_int (g_samples_sent s) = g_samples_sent s
      \<and> c_int (g_samples_measured s) = g_samples_measured s
      \<and> c_int (g_samples_sent s) \<le> c_int (g_samples_measured s)
      \<and> c_int (g_samples_sent s) + int (length (g_accel_buf s)) \<le> c_int (g_samples_measured s)
      \<and> length (g_accel_buf s) \<le> 500)
   \<and> (\<not> g_recording s \<longrightarrow>
        g_samples_measured (start_recording s)
          = g_samples_sent (start_recording s) + int (length (g_accel_buf (start_recording s))))
   \<and> (g_samples_measured s = g_samples_sent s + int (length (g_accel_buf s)) \<longrightarrow>
        g_samples_measured (send_data s)
          = g_samples_sent (send_data s) + int (length (g_accel_buf (send_data s))))
   \<and> (g_samples_measured s = g_samples_sent s + int (length (g_accel_buf s))
        \<and> length (g_accel_buf s) + length d \<le> 500 \<longrightarrow>
        g_samples_measured (accel_handler d s)
          = g_samples_sent (accel_handler d s) + int (length (g_accel_buf (accel_handler d s))))"
proof -
  have "c_int (g_samples_sent s) = g_samples_sent s
      \<and> c_int (g_samples_measured s) = g_samples_measured s
      \<and> c_int (g_samples_sent s) \<le> c_int (g_samples_measured s)
      \<and> c_int (g_samples_sent s) + int (length (g_accel_buf s)) \<le> c_int (g_samples_measured s)
      \<and> length (g_accel_buf s) \<le> 500"
    if r: "reachable s" and b: "g_samples_measured s < 2 ^ 31"
  proof -
    have a: "0 \<le> g_samples_sent s"
      "g_samples_sent s + int (length (g_accel_buf s)) \<le> g_samples_measured s"
      "length (g_accel_buf s) \<le> 500"
      using accounted_reachable [OF r] by (simp_all add: accounted_def)
    have "c_int (g_samples_sent s) = g_samples_sent s"
      using a b by (intro c_int_in_range) linarith+
    moreover have "c_int (g_samples_measured s) = g_samples_measured s"
      using a b by (intro c_int_in_range) linarith+
    ultimately show ?thesis
      using a by simp
  qed
  then show ?thesis
    using start_recording_sets_equality [of s] send_data_keeps_equality [of s]
      accel_handler_keeps_equality [of s d]
    by blast
qed

theorem sample_accounting_witness:
  "reachable (run overflow_run overflow_outbox)
   \<and> g_samples_measured (run overflow_run overflow_outbox) < 2 ^ 31
   \<and> c_int (g_samples_sent (run overflow_run overflow_outbox)) = 11
   \<and> c_int (g_samples_measured (run overflow_run overflow_outbox)) = 700
   \<and> c_int (g_samples_sent (run overflow_run overflow_outbox))
        + int (length (g_accel_buf (run overflow_run overflow_outbox)))
        \<le> c_int (g_samples_measured (run overflow_run overflow_outbox))
   \<and> \<not> g_recording (initial_state [] [])
   \<and> g_samples_measured (start_recording (initial_state [] []))
        = g_samples_sent (start_recording (initial_state [] []))
          + int (length (g_accel_buf (start_recording (initial_state [] []))))
   \<and> g_samples_measured ((initial_state [] [])\<lparr>g_recording := True\<rparr>)
        = g_samples_sent ((initial_state [] [])\<lparr>g_recording := True\<rparr>)
          + int (length (g_accel_buf ((initial_state [] [])\<lparr>g_recording := True\<rparr>)))
   \<and> length (g_accel_buf ((initial_state [] [])\<lparr>g_recording := True\<rparr>))
        + length [AccelData 1 2 3 False 0] \<le> 500
   \<and> g_samples_measured (accel_handler [AccelData 1 2 3 False 0]
          ((initial_state [] [])\<lparr>g_recording := True\<rparr>)) = 1
   \<and> g_samples_measured (accel_handler [AccelData 1 2 3 False 0]
          ((initial_state [] [])\<lparr>g_recording := True\<rparr>))
        = g_samples_sent (accel_handler [AccelData 1 2 3 False 0]
            ((initial_state [] [])\<lparr>g_recording := True\<rparr>))
          + int (length (g_accel_buf (accel_handler [AccelData 1 2 3 False 0]
              ((initial_state [] [])\<lparr>g_recording := True\<rparr>))))"
proof -
  have r: "reachable (run overflow_run overflow_outbox)"
    unfolding overflow_outbox_def by (intro reachable_run reachable_initial)
  have f: "g_samples_sent (run overflow_run overflow_outbox) = 11"
    "g_samples_measured (run overflow_run overflow_outbox) = 700"
    using overflow_run_fields by simp_all
  have i: "\<not> g_recording (initial_state [] [])"
    "g_samples_measured ((initial_state [] [])\<lparr>g_recording := True\<rparr>)
        = g_samples_sent ((initial_state [] [])\<lparr>g_recording := True\<rparr>)
          + int (length (g_accel_buf ((initial_state [] [])\<lparr>g_recording := True\<rparr>)))"
    "length (g_accel_buf ((initial_state [] [])\<lparr>g_recording := True\<rparr>))
        + length [AccelData 1 2 3 False 0] \<le> 500"
    "g_samples_measured (accel_handler [AccelData 1 2 3 False 0]
          ((initial_state [] [])\<lparr>g_recording := True\<rparr>)) = 1"
    by (simp_all add: initial_state_def accel_handler_def Let_def ACCEL_BUF_SIZE_def)
  show ?thesis
    using r f i sample_accounting [of "run overflow_run overflow_outbox"]
      sample_accounting [of "initial_state [] []"]
      sample_accounting [of "(initial_state [] [])\<lparr>g_recording := True\<rparr>"
        "[AccelData 1 2 3 False 0]"]
    by simp
qed

subsection \<open>The heartbeat flag\<close>

text \<open>
  C8, the claim as stated fails.  A session that is connected and idle for eight timer
  ticks, in front of an outbox that would take every message: the heartbeat flag is
  pending after none of the events and nothing at all is sent.
\<close>

theorem heartbeat_never_armed_counterexample:
  "map g_connected (trace idle_run open_outbox)
     = [False, True, True, True, True, True, True, True, True, True]
   \<and> map (get_msg_flag KEY_HEARTBEAT) (trace idle_run open_outbox)
     = [False, False, False, False, False, False, False, False, False, False]
   \<and> outbox_log (run idle_run open_outbox) = []"
  by code_simp

text \<open>
  C8, amended.  No operation of the engine arms the heartbeat flag: an event in a state
  where the flag is not pending leads to a state where it is not pending, so it is
  pending in no reachable state, and a message built in a reachable state carries no
  heartbeat marker.  (The send cycle would write the marker if the flag were pending.)
\<close>

theorem heartbeat_never_armed:
  "(\<not> get_msg_flag KEY_HEARTBEAT s \<longrightarrow> \<not> get_msg_flag KEY_HEARTBEAT (step e s))
   \<and> (reachable s \<longrightarrow>
        \<not> get_msg_flag KEY_HEARTBEAT s
        \<and> dict_write_uint8 KEY_HEARTBEAT 1 \<notin> set (fresh_message s avail))"
  using heartbeat_clear_step [of s e] heartbeat_clear_reachable [of s]
    fresh_message_no_heartbeat [of s avail]
  by (simp add: heartbeat_clear_def)

theorem heartbeat_never_armed_witness:
  "\<not> get_msg_flag KEY_HEARTBEAT (run idle_run open_outbox)
   \<and> reachable (run idle_run open_outbox)
   \<and> \<not> get_msg_flag KEY_HEARTBEAT (step (TimerTick 109) (run idle_run open_outbox))
   \<and> dict_write_uint8 KEY_HEARTBEAT 1 \<notin> set (fresh_message (run idle_run open_outbox) 3000)"
proof -
  have r: "reachable (run idle_run open_outbox)"
    unfolding open_outbox_def by (intro reachable_run reachable_initial)
  show ?thesis
    using r heartbeat_never_armed [of "run idle_run open_outbox" "TimerTick 109" 3000]
    by blast
qed

subsection \<open>Giving up on a message\<close>

text \<open>
  C2, the claim as stated fails.  The start marker of a recording fails to be delivered
  six times in a row, each resend being accepted by the outbox and failing in turn: after
  the sixth failure the session is still connected and the message, which carried the
  counter 4, is queued for another resend.  It is still connected after the seventh
  failure, and the message then sent carries the counter 6.
\<close>

theorem retry_bound_counterexample:
  "map fst (outbox_log (run six_failures_run open_outbox))
     = [start_message, nth_resend 1 start_message, nth_resend 2 start_message,
        nth_resend 3 start_message, nth_resend 4 start_message, nth_resend 5 start_message]
   \<and> g_connected (run six_failures_run open_outbox)
   \<and> g_resend_buf (run six_failures_run open_outbox) = [nth_resend 5 start_message]
   \<and> dict_find (nth_resend 5 start_message) KEY_RESEND = Some (dict_write_uint8 KEY_RESEND 4)
   \<and> g_connected (run seven_retries_run open_outbox)
   \<and> dict_find (fst (last (outbox_log (run seven_retries_run open_outbox)))) KEY_RESEND
       = Some (dict_write_uint8 KEY_RESEND 6)"
  by code_simp

text \<open>
  C2, amended.  A message \<open>m\<close> without resend counter fails, with a reason other than
  \<open>APP_MSG_SEND_REJECTED\<close>, while the session is connected and the resend queue has room;
  \<open>nth_resend k m\<close> is its \<open>k\<close>-th resend, whose failure is the \<open>(k+1)\<close>-th failure in a
  row.  (A failure reported as \<open>APP_MSG_SEND_REJECTED\<close> changes nothing, whatever the
  counter.)  The failures of the message itself and of
  its first six resends queue it again and leave the session connected; the failure of
  the seventh resend, the eighth failure in a row, forces the disconnect.  The \<open>k\<close>-th
  resend carries the counter \<open>k - 1\<close>, so counters up to 6 are sent.  The failure of any
  message whose counter is above 5 forces a disconnect instead of a further retry.  Every
  message of the fresh send is without counter, as \<open>m\<close> is taken to be.
\<close>

theorem retry_exhaustion:
  assumes "g_connected s" and "reason \<noteq> APP_MSG_SEND_REJECTED"
    and "length (g_resend_buf s) < RESEND_BUF_SIZE"
    and "KEY_RESEND \<notin> tuple_key ` set m"
  shows "(k \<le> 6 \<longrightarrow>
            g_connected (outbox_failed_handler (nth_resend k m) reason s)
            \<and> g_resend_buf (outbox_failed_handler (nth_resend k m) reason s)
                = g_resend_buf s @ [nth_resend k m])
       \<and> (7 \<le> k \<and> k \<le> 256 \<longrightarrow>
            \<not> g_connected (outbox_failed_handler (nth_resend k m) reason s)
            \<and> g_resend_buf (outbox_failed_handler (nth_resend k m) reason s) = [])
       \<and> (1 \<le> k \<longrightarrow>
            dict_find (nth_resend k m) KEY_RESEND
              = Some (dict_write_uint8 KEY_RESEND (of_nat (k - 1))))
       \<and> (dict_find m' KEY_RESEND = Some t \<and> tuple_uint8 t > 5 \<longrightarrow>
            \<not> g_connected (outbox_failed_handler m' reason s))
       \<and> KEY_RESEND \<notin> tuple_key ` set (fresh_message s' avail)
       \<and> outbox_failed_handler (nth_resend k m) APP_MSG_SEND_REJECTED s = s"
proof -
  have c: "dict_find (nth_resend k m) KEY_RESEND
              = Some (dict_write_uint8 KEY_RESEND (of_nat (k - 1)))" if "1 \<le> k"
    using nth_resend_counter [OF assms(4), of "k - 1"] that by simp
  have v: "tuple_uint8 (dict_write_uint8 KEY_RESEND x) = x" for x
    by (simp add: tuple_uint8_def dict_write_uint8_def byte_at_def)
  have a: "g_connected (outbox_failed_handler (nth_resend k m) reason s)
            \<and> g_resend_buf (outbox_failed_handler (nth_resend k m) reason s)
                = g_resend_buf s @ [nth_resend k m]" if "k \<le> 6"
  proof (cases k)
    case 0
    then show ?thesis
      using outbox_failed_handler_connected(2) [OF assms(1,2), of m] assms(3,4)
      by (simp add: dict_find_absent)
  next
    case (Suc j)
    then have "\<not> tuple_uint8 (dict_write_uint8 KEY_RESEND (of_nat j)) > 5"
      using that by (simp add: v small_counter)
    then show ?thesis
      using outbox_failed_handler_connected(2) [OF assms(1,2), of "nth_resend k m"] assms(3)
        nth_resend_counter [OF assms(4), of j] Suc by auto
  qed
  have b: "\<not> g_connected (outbox_failed_handler (nth_resend k m) reason s)
            \<and> g_resend_buf (outbox_failed_handler (nth_resend k m) reason s) = []"
    if "7 \<le> k \<and> k \<le> 256"
  proof -
    define j where "j = k - 1"
    have j: "k = Suc j" "5 < j" "j < 256"
      using that unfolding j_def by linarith+
    have "tuple_uint8 (dict_write_uint8 KEY_RESEND (of_nat j)) > 5"
      using j by (simp only: v small_counter)
    then show ?thesis
      using outbox_failed_handler_connected(1) [OF assms(1,2), of "nth_resend k m"]
        nth_resend_counter [OF assms(4), of j] j(1)
      by auto
  qed
  have d: "dict_find m' KEY_RESEND = Some t \<and> tuple_uint8 t > 5 \<longrightarrow>
            \<not> g_connected (outbox_failed_handler m' reason s)"
    using outbox_failed_handler_connected(1) [OF assms(1,2), of m' t] by blast
  have e: "outbox_failed_handler (nth_resend k m) APP_MSG_SEND_REJECTED s = s"
    by (simp add: outbox_failed_handler_def)
  from a b c d e fresh_message_no_resend [of s' avail] show ?thesis by blast
qed

theorem retry_exhaustion_witness:
  "g_connected (run seven_retries_run open_outbox)
   \<and> APP_MSG_SEND_TIMEOUT \<noteq> APP_MSG_SEND_REJECTED
   \<and> length (g_resend_buf (run seven_retries_run open_outbox)) < RESEND_BUF_SIZE
   \<and> KEY_RESEND \<notin> tuple_key ` set start_message
   \<and> fst (last (outbox_log (run seven_retries_run open_outbox))) = nth_resend 7 start_message
   \<and> \<not> g_connected (outbox_failed_handler (nth_resend 7 start_message) APP_MSG_SEND_TIMEOUT
          (run seven_retries_run open_outbox))
   \<and> g_connected (outbox_failed_handler (nth_resend 6 start_message) APP_MSG_SEND_TIMEOUT
          (run seven_retries_run open_outbox))"
proof -
  have h: "g_connected (run seven_retries_run open_outbox)"
    "length (g_resend_buf (run seven_retries_run open_outbox)) < RESEND_BUF_SIZE"
    "fst (last (outbox_log (run seven_retries_run open_outbox))) = nth_resend 7 start_message"
    by code_simp+
  have k: "KEY_RESEND \<notin> tuple_key ` set start_message"
    by (simp add: start_message_def dict_write_uint8_def key_defs)
  show ?thesis
    using h k
      retry_exhaustion [OF h(1) _ h(2) k, of APP_MSG_SEND_TIMEOUT 7]
      retry_exhaustion [OF h(1) _ h(2) k, of APP_MSG_SEND_TIMEOUT 6]
    by simp
qed

subsection \<open>Resend and fresh send in one cycle\<close>

text \<open>
  C4, the claim as stated fails.  A send cycle entered with one message in the resend
  queue and two samples in the buffer, in front of an outbox that takes every message:
  the cycle hands over the resend and then a fresh message with the two samples.  The
  timer tick does the same.
\<close>

theorem resend_only_counterexample:
  "g_resend_buf (run double_send_prefix open_outbox) = [start_message]
   \<and> outbox_log (run double_send_prefix open_outbox) = [(start_message, APP_MSG_OK)]
   \<and> outbox_log (send_data (run double_send_prefix open_outbox))
       = [(start_message, APP_MSG_OK),
          (resend_message start_message, APP_MSG_OK),
          ([dict_write_uint32 KEY_SENSOR_OFFSET 0,
            dict_write_uint8 KEY_SENSOR_RATE 50,
            dict_write_data KEY_SENSOR_DATA
              (sample_bytes (Sample 1 2 3) @ sample_bytes (Sample 4 5 6))], APP_MSG_OK)]
   \<and> outbox_log (step (TimerTick 101) (run double_send_prefix open_outbox))
       = outbox_log (send_data (run double_send_prefix open_outbox))"
  by code_simp

text \<open>
  C4, amended.  With an empty resend queue the send cycle is the fresh send alone.  With
  a non-empty queue the resend comes first: if the outbox does not open for it, the cycle
  ends there and nothing is sent; if the outbox opens and takes the resend, the entry
  leaves the queue and the fresh send runs in the same cycle on the resulting state.
\<close>

theorem resend_then_fresh:
  "(g_resend_buf s = [] \<longrightarrow> send_data s = send_data_fresh s)
   \<and> (g_resend_buf s \<noteq> [] \<and> outbox_begin_results s = [] \<longrightarrow> send_data s = s)
   \<and> (g_resend_buf s \<noteq> [] \<and> outbox_begin_results s = (r, a) # bs \<and> r \<noteq> APP_MSG_OK \<longrightarrow>
        send_data s = s\<lparr>outbox_begin_results := bs\<rparr>)
   \<and> (g_resend_buf s \<noteq> [] \<and> outbox_begin_results s = (APP_MSG_OK, a) # bs
        \<and> outbox_send_results s = APP_MSG_OK # rs \<longrightarrow>
        send_data s
          = send_data_fresh
              (s\<lparr>outbox_begin_results := bs, outbox_send_results := rs,
                 outbox_log := outbox_log s @ [(resend_message (last (g_resend_buf s)), APP_MSG_OK)],
                 g_resend_buf := butlast (g_resend_buf s)\<rparr>))"
  by (simp add: send_data_def send_data_resend_def outbox_defs)

theorem resend_then_fresh_witness:
  "g_resend_buf (initial_state [] []) = []
   \<and> send_data (initial_state [] []) = send_data_fresh (initial_state [] [])
   \<and> g_resend_buf (run double_send_prefix (initial_state [(APP_MSG_OK, 3000)] [APP_MSG_OK])) \<noteq> []
   \<and> outbox_begin_results (run double_send_prefix (initial_state [(APP_MSG_OK, 3000)] [APP_MSG_OK])) = []
   \<and> send_data (run double_send_prefix (initial_state [(APP_MSG_OK, 3000)] [APP_MSG_OK]))
       = run double_send_prefix (initial_state [(APP_MSG_OK, 3000)] [APP_MSG_OK])
   \<and> g_resend_buf (run double_send_prefix
          (initial_state [(APP_MSG_OK, 3000), (APP_MSG_BUSY, 0)] [APP_MSG_OK])) \<noteq> []
   \<and> outbox_begin_results (run double_send_prefix
          (initial_state [(APP_MSG_OK, 3000), (APP_MSG_BUSY, 0)] [APP_MSG_OK])) = [(APP_MSG_BUSY, 0)]
   \<and> send_data (run double_send_prefix
          (initial_state [(APP_MSG_OK, 3000), (APP_MSG_BUSY, 0)] [APP_MSG_OK]))
       = (run double_send_prefix
          (initial_state [(APP_MSG_OK, 3000), (APP_MSG_BUSY, 0)] [APP_MSG_OK]))
            \<lparr>outbox_begin_results := []\<rparr>
   \<and> g_resend_buf (run double_send_prefix open_outbox) \<noteq> []
   \<and> outbox_begin_results (run double_send_prefix open_outbox)
       = (APP_MSG_OK, 3000) # replicate 8 (APP_MSG_OK, 3000)
   \<and> outbox_send_results (run double_send_prefix open_outbox)
       = APP_MSG_OK # replicate 8 APP_MSG_OK
   \<and> send_data (run double_send_prefix open_outbox)
       = send_data_fresh
           ((run double_send_prefix open_outbox)
              \<lparr>outbox_begin_results := replicate 8 (APP_MSG_OK, 3000),
               outbox_send_results := replicate 8 APP_MSG_OK,
               outbox_log := outbox_log (run double_send_prefix open_outbox)
                  @ [(resend_message (last (g_resend_buf (run double_send_prefix open_outbox))),
                      APP_MSG_OK)],
               g_resend_buf := butlast (g_resend_buf (run double_send_prefix open_outbox))\<rparr>)"
proof -
  have a: "g_resend_buf (initial_state [] []) = []"
    by (simp add: initial_state_def)
  have b: "g_resend_buf (run double_send_prefix (initial_state [(APP_MSG_OK, 3000)] [APP_MSG_OK])) \<noteq> []"
    "outbox_begin_results (run double_send_prefix (initial_state [(APP_MSG_OK, 3000)] [APP_MSG_OK])) = []"
    by code_simp+
  have c: "g_resend_buf (run double_send_prefix
          (initial_state [(APP_MSG_OK, 3000), (APP_MSG_BUSY, 0)] [APP_MSG_OK])) \<noteq> []"
    "outbox_begin_results (run double_send_prefix
          (initial_state [(APP_MSG_OK, 3000), (APP_MSG_BUSY, 0)] [APP_MSG_OK])) = [(APP_MSG_BUSY, 0)]"
    by code_simp+
  have d: "g_resend_buf (run double_send_prefix open_outbox) \<noteq> []"
    "outbox_begin_results (run double_send_prefix open_outbox)
       = (APP_MSG_OK, 3000) # replicate 8 (APP_MSG_OK, 3000)"
    "outbox_send_results (run double_send_prefix open_outbox)
       = APP_MSG_OK # replicate 8 APP_MSG_OK"
    by code_simp+
  show ?thesis
    using a b c d
      resend_then_fresh [of "initial_state [] []"]
      resend_then_fresh [of "run double_send_prefix (initial_state [(APP_MSG_OK, 3000)] [APP_MSG_OK])"]
      resend_then_fresh [of "run double_send_prefix
          (initial_state [(APP_MSG_OK, 3000), (APP_MSG_BUSY, 0)] [APP_MSG_OK])"
          APP_MSG_BUSY 0 "[]"]
      resend_then_fresh [of "run double_send_prefix open_outbox" _ 3000
          "replicate 8 (APP_MSG_OK, 3000)" "replicate 8 APP_MSG_OK"]
    by simp
qed

end
